theory Spec2Isabelle
  imports Complex_Main
begin

section \<open>Strings and JavaScript truthiness\<close>

text \<open>
  JavaScript strings are modelled as \<^typ>\<open>string\<close>. \<open>toLowerCase\<close> maps the ASCII
  capitals to their small letters and leaves every other character alone; all the strings
  the handlers compare against (hex digits, the vendor status vocabulary) are ASCII.
\<close>

definition toLowerCase_char :: "char \<Rightarrow> char" where
  "toLowerCase_char c =
     (case map_of (zip ''ABCDEFGHIJKLMNOPQRSTUVWXYZ'' ''abcdefghijklmnopqrstuvwxyz'') c of
        Some l \<Rightarrow> l
      | None \<Rightarrow> c)"

definition toLowerCase :: "string \<Rightarrow> string" where
  "toLowerCase s = map toLowerCase_char s"

text \<open>\<open>s.slice(a, b)\<close> for \<open>0 \<le> a \<le> b\<close>.\<close>

definition slice :: "nat \<Rightarrow> nat \<Rightarrow> string \<Rightarrow> string" where
  "slice a b s = take (b - a) (drop a s)"

text \<open>
  \<open>x || d\<close>: the left operand when it is truthy, else the right one. A missing field
  (\<open>undefined\<close>, \<open>null\<close>) is \<open>None\<close>; the number \<open>0\<close> and the empty string are falsy.
  An amount that arrives in a request or rests in the store is a finite double, which is a
  real number; truthiness and comparison are exact on it. Arithmetic on doubles is not:
  where the code adds amounts, the addition is a parameter of the model.
\<close>

definition or_num :: "real option \<Rightarrow> real \<Rightarrow> real" where
  "or_num x d = (case x of None \<Rightarrow> d | Some v \<Rightarrow> if v \<noteq> 0 then v else d)"

definition or_str :: "string option \<Rightarrow> string \<Rightarrow> string" where
  "or_str x d = (case x of None \<Rightarrow> d | Some v \<Rightarrow> if v \<noteq> [] then v else d)"

text \<open>\<open>x || undefined\<close> on an optional string.\<close>

definition or_undefined :: "string option \<Rightarrow> string option" where
  "or_undefined x = (case x of None \<Rightarrow> None | Some v \<Rightarrow> if v \<noteq> [] then Some v else None)"

section \<open>Identity codec (link-generator.ts)\<close>

definition is_hex :: "char \<Rightarrow> bool" where
  "is_hex c = (c \<in> set ''abcdefABCDEF0123456789'')"

definition is_lower_hex :: "char \<Rightarrow> bool" where
  "is_lower_hex c = (c \<in> set ''abcdef0123456789'')"

text \<open>The zod schema \<open>z.string().regex(/^0x[a-fA-F0-9]{40}$/)\<close>.\<close>

definition walletAddressSchema :: "string \<Rightarrow> bool" where
  "walletAddressSchema w =
     (take 2 w = ''0x'' \<and> length (drop 2 w) = 40 \<and> list_all is_hex (drop 2 w))"

text \<open>
  \<open>generateSubId\<close>: \<open>random\<close> stands for \<open>Math.random().toString(36).substring(2, 12)\<close> and
  \<open>timestamp\<close> for \<open>Date.now().toString(36)\<close>, both supplied by the environment.
\<close>

definition generateSubId :: "string \<Rightarrow> string \<Rightarrow> string \<Rightarrow> string" where
  "generateSubId walletAddress random timestamp =
     (let walletPrefix = toLowerCase (slice 2 10 walletAddress)
      in ''agent_'' @ walletPrefix @ ''_'' @ random @ ''_'' @ timestamp)"

text \<open>
  \<open>extractWalletPrefix\<close>: \<open>subId.match(/^agent_([a-f0-9]{8})_/)\<close>, returning the group or
  \<open>null\<close>. The pattern is anchored at the start only.
\<close>

definition extractWalletPrefix :: "string \<Rightarrow> string option" where
  "extractWalletPrefix subId =
     (let g = take 8 (drop 6 subId)
      in if take 6 subId = ''agent_'' \<and> length g = 8 \<and> list_all is_lower_hex g
            \<and> take 1 (drop 14 subId) = ''_''
         then Some g else None)"

text \<open>
  What the decoder's pattern accepts, written as the pattern reads: the literal \<open>agent_\<close>,
  eight characters of \<open>[a-f0-9]\<close>, an underscore, then anything.
\<close>

definition decoder_pattern :: "string \<Rightarrow> bool" where
  "decoder_pattern s =
     (\<exists>p rest. s = ''agent_'' @ p @ ''_'' @ rest \<and> length p = 8 \<and> list_all is_lower_hex p)"

text \<open>
  The token format of the specification (section 4.1), \<open>agent_<8-hex-fingerprint>_<random>_<time>\<close>:
  the four parts are joined by underscores, and the random and the time parts are what
  \<open>toString(36)\<close> writes, runs of the digits \<open>0-9a-z\<close>, the time part not empty. The parts
  hold no underscore, so a string is split in one way only.
\<close>

definition is_base36 :: "char \<Rightarrow> bool" where
  "is_base36 c = (c \<in> set ''0123456789abcdefghijklmnopqrstuvwxyz'')"

definition token_format :: "string \<Rightarrow> bool" where
  "token_format s =
     (let fingerprint = take 8 (drop 6 s);
          rest = drop 15 s;
          r = takeWhile (\<lambda>c. c \<noteq> CHR ''_'') rest;
          t = drop (Suc (length r)) rest
      in take 6 s = ''agent_'' \<and> length fingerprint = 8 \<and> list_all is_lower_hex fingerprint
         \<and> take 1 (drop 14 s) = ''_''
         \<and> list_all is_base36 r \<and> take 1 (drop (length r) rest) = ''_''
         \<and> t \<noteq> [] \<and> list_all is_base36 t)"

section \<open>The store\<close>

datatype RewardStatus = NOT_TRACKED | PENDING | COMMISSIONED | PAID | CANCELLED

text \<open>
  The body of a postback request. Only \<open>subId\<close> is required; a field that is absent or
  \<open>null\<close> is \<open>None\<close>. A field that is present has the type the store's column expects: a
  string for the identifiers, the currency, the status and the source, a number for the
  amounts.
\<close>

record postback =
  pb_subId :: string
  pb_orderId :: "string option"
  pb_orderAmount :: "real option"
  pb_orderCurrency :: "string option"
  pb_commissionUsdt :: "real option"
  pb_status :: "string option"
  pb_source :: "string option"

text \<open>
  The three tables of the Prisma schema. Row identifiers are generated by the store; they
  are modelled as natural numbers drawn from the counter \<open>nextId\<close>. Timestamps are
  milliseconds since the epoch. A table is the list of its rows in the order of their
  creation, and an update rewrites a row where it stands. This order is that of
  \<open>createdAt\<close> only: what a query without \<open>orderBy\<close> returns first is not read off it.
\<close>

record agent =
  agent_id :: nat
  walletAddress :: string

record agentLink =
  link_id :: nat
  link_agentId :: nat
  merchantId :: string
  merchantName :: string
  merchantSlug :: string
  subId :: string
  trackingUrl :: string
  shortCode :: string
  cashbackRate :: real
  clickCount :: nat
  lastClickAt :: "nat option"

text \<open>
  \<open>statusHistory\<close> is a JSON object keyed by the ISO timestamp of each ingestion; it is
  kept as the list of its entries in insertion order, the key being the timestamp.
\<close>

record agentReward =
  reward_id :: nat
  reward_agentId :: nat
  linkId :: nat
  orderId :: "string option"
  orderAmount :: real
  orderCurrency :: string
  commissionUsdt :: real
  status :: RewardStatus
  postbackSource :: "string option"
  postbackData :: postback
  statusHistory :: "(nat \<times> RewardStatus) list"

record db =
  agents :: "agent list"
  links :: "agentLink list"
  rewards :: "agentReward list"
  nextId :: nat

text \<open>\<open>prisma.agent.findUnique({ where: { walletAddress } })\<close>.\<close>

definition findUnique_agent :: "db \<Rightarrow> string \<Rightarrow> agent option" where
  "findUnique_agent d w = find (\<lambda>a. walletAddress a = w) (agents d)"

text \<open>
  \<open>prisma.agentLink.findUnique({ where: { subId }, include: { agent: true } })\<close>: the link
  row together with its owning agent. The relation is required, so the store's foreign key
  gives every link an agent; a link without one yields no result here.
\<close>

definition findUnique_link_subId :: "db \<Rightarrow> string \<Rightarrow> (agentLink \<times> agent) option" where
  "findUnique_link_subId d s =
     (case find (\<lambda>l. subId l = s) (links d) of
        None \<Rightarrow> None
      | Some l \<Rightarrow>
          (case find (\<lambda>a. agent_id a = link_agentId l) (agents d) of
             None \<Rightarrow> None
           | Some a \<Rightarrow> Some (l, a)))"

text \<open>\<open>prisma.agentLink.findUnique({ where: { shortCode } })\<close>.\<close>

definition findUnique_link_shortCode :: "db \<Rightarrow> string \<Rightarrow> agentLink option" where
  "findUnique_link_shortCode d c = find (\<lambda>l. shortCode l = c) (links d)"

text \<open>
  \<open>prisma.agentReward.findFirst({ where: { linkId, orderId } })\<close>. In a Prisma filter a
  field whose value is \<open>undefined\<close> is left out of the query, so with \<open>None\<close> for the order
  identifier the lookup filters on the link alone. The query has no \<open>orderBy\<close>: which of
  several matching rows comes first is the store's decision. That decision is the parameter
  \<open>pick\<close>: of the matching rows \<open>ms\<close> the store returns the one at position
  \<open>pick ms mod length ms\<close>. Nothing is assumed of \<open>pick\<close>.
\<close>

definition reward_matches :: "nat \<Rightarrow> string option \<Rightarrow> agentReward \<Rightarrow> bool" where
  "reward_matches lid oid r =
     (linkId r = lid \<and> (case oid of None \<Rightarrow> True | Some v \<Rightarrow> orderId r = Some v))"

definition findFirst_reward ::
  "(agentReward list \<Rightarrow> nat) \<Rightarrow> db \<Rightarrow> nat \<Rightarrow> string option \<Rightarrow> agentReward option" where
  "findFirst_reward pick d lid oid =
     (let ms = filter (reward_matches lid oid) (rewards d)
      in if ms = [] then None else Some (ms ! (pick ms mod length ms)))"

text \<open>\<open>{ ...history, [key]: value }\<close>: an existing key keeps its place and takes the new value,
  a new key is added at the end.\<close>

fun js_set :: "(nat \<times> RewardStatus) list \<Rightarrow> nat \<Rightarrow> RewardStatus \<Rightarrow> (nat \<times> RewardStatus) list" where
  "js_set [] k v = [(k, v)]"
| "js_set ((k', v') # h) k v = (if k' = k then (k, v) # h else (k', v') # js_set h k v)"

text \<open>
  The \<open>statusHistory\<close> column is a PostgreSQL \<open>jsonb\<close> value, Prisma's mapping of \<open>Json\<close>.
  Such a value keeps the entries of an object in the order of their keys, not in the order
  in which they were written, and that is the order in which the next read returns them.
  The keys are ISO timestamps of one length, so their order is the order of the clock
  readings.
\<close>

definition store_json :: "(nat \<times> RewardStatus) list \<Rightarrow> (nat \<times> RewardStatus) list" where
  "store_json h = sort_key fst h"

section \<open>Postback ingestion (routes.ts, POST /webhooks/postback)\<close>

text \<open>The \<open>switch (status?.toLowerCase())\<close> of the handler.\<close>

definition mapStatus :: "string option \<Rightarrow> RewardStatus" where
  "mapStatus st =
     (case map_option toLowerCase st of
        None \<Rightarrow> NOT_TRACKED
      | Some s \<Rightarrow>
          if s = ''pending'' \<or> s = ''before_pending'' then PENDING
          else if s = ''commissioned'' \<or> s = ''approved'' then COMMISSIONED
          else if s = ''paid'' \<or> s = ''success'' then PAID
          else if s = ''cancelled'' \<or> s = ''reversed'' \<or> s = ''rejected'' then CANCELLED
          else NOT_TRACKED)"

text \<open>
  The row that \<open>prisma.agentReward.update\<close> leaves and returns in the branch that found a
  reward: the \<open>data\<close> of the call, as the store keeps it.
\<close>

definition merge_reward :: "nat \<Rightarrow> postback \<Rightarrow> RewardStatus \<Rightarrow> agentReward \<Rightarrow> agentReward" where
  "merge_reward now body rewardStatus reward =
     reward\<lparr>status := rewardStatus,
            commissionUsdt := or_num (pb_commissionUsdt body) (commissionUsdt reward),
            statusHistory := store_json (js_set (statusHistory reward) now rewardStatus),
            postbackData := body\<rparr>"

text \<open>The row that \<open>prisma.agentReward.create\<close> leaves and returns in the other branch.\<close>

definition new_reward :: "nat \<Rightarrow> nat \<Rightarrow> agentLink \<Rightarrow> postback \<Rightarrow> RewardStatus \<Rightarrow> agentReward" where
  "new_reward rid now link body rewardStatus =
     \<lparr>reward_id = rid,
      reward_agentId = link_agentId link,
      linkId = link_id link,
      orderId = pb_orderId body,
      orderAmount = or_num (pb_orderAmount body) 0,
      orderCurrency = or_str (pb_orderCurrency body) ''USD'',
      commissionUsdt = or_num (pb_commissionUsdt body) 0,
      status = rewardStatus,
      postbackSource = pb_source body,
      postbackData = body,
      statusHistory = store_json [(now, rewardStatus)]\<rparr>"

text \<open>
  The find-then-update-or-create step: the reward the handler holds afterwards and the
  store after the write. \<open>update({ where: { id } })\<close> rewrites the row with that
  identifier.
\<close>

definition upsert_reward ::
  "(agentReward list \<Rightarrow> nat) \<Rightarrow> nat \<Rightarrow> db \<Rightarrow> agentLink \<Rightarrow> postback \<Rightarrow> RewardStatus
     \<Rightarrow> agentReward \<times> db" where
  "upsert_reward pick now d link body rewardStatus =
     (case findFirst_reward pick d (link_id link) (or_undefined (pb_orderId body)) of
        Some reward \<Rightarrow>
          (merge_reward now body rewardStatus reward,
           d\<lparr>rewards := map (\<lambda>r. if reward_id r = reward_id reward
                                   then merge_reward now body rewardStatus r else r)
                            (rewards d)\<rparr>)
      | None \<Rightarrow>
          (new_reward (nextId d) now link body rewardStatus,
           d\<lparr>rewards := rewards d @ [new_reward (nextId d) now link body rewardStatus],
             nextId := Suc (nextId d)\<rparr>))"

text \<open>
  The payout requester \<open>lagunaClient.requestAgentWithdrawal\<close> is an external collaborator:
  it is a parameter of the handler, with the argument and result types of the call site.
  The call is awaited inside the handler's \<open>try\<close> block: it either resolves to a result or
  throws an error, whose message the \<open>catch\<close> block reads.
\<close>

record withdrawal_request =
  wr_walletAddress :: string
  wr_amountUsdt :: real
  wr_rewardId :: nat

record withdrawal_result =
  success :: bool
  error :: "string option"

datatype withdrawal_outcome = Resolved withdrawal_result | Thrown string

text \<open>
  The values of JavaScript numbers that arithmetic can produce. A stored amount is a
  finite number; a sum of amounts is a double again, rounded, and infinite once it
  overflows.
\<close>

datatype jsnumber = Number real | PlusInfinity | MinusInfinity | NaN

text \<open>
  Responses, as \<open>res.json\<close> writes them. The last field of the postback data is the
  \<open>withdrawalError\<close> key: \<open>Some e\<close> when the key is written with the text \<open>e\<close>, and \<open>None\<close>
  when the response has no such key, because it was not spread into the object or because
  its value is \<open>undefined\<close>, which JSON leaves out.
\<close>

record byStatus =
  not_tracked :: jsnumber
  pending :: jsnumber
  commissioned :: jsnumber
  paid :: jsnumber
  cancelled :: jsnumber

datatype payload =
  PostbackData nat RewardStatus string "string option"
| LinkData nat string real string string
| EarningsData string jsnumber byStatus nat "agentReward list"

datatype body = Success payload | Failure string

datatype response = Json nat body | Redirect nat string

text \<open>
  The handler returns the response, the store it leaves, and the calls it made to the
  payout requester. A call that throws is caught by the handler's \<open>catch\<close>, after the
  reward was written.
\<close>

definition postback_handler ::
  "(withdrawal_request \<Rightarrow> withdrawal_outcome) \<Rightarrow> (agentReward list \<Rightarrow> nat) \<Rightarrow> nat \<Rightarrow> db
     \<Rightarrow> postback \<Rightarrow> response \<times> db \<times> withdrawal_request list" where
  "postback_handler requestAgentWithdrawal pick now d b =
     (case findUnique_link_subId d (pb_subId b) of
        None \<Rightarrow> (Json 404 (Failure ''Link not found''), d, [])
      | Some (link, owner) \<Rightarrow>
          (let rewardStatus = mapStatus (pb_status b);
               (reward, d') = upsert_reward pick now d link b rewardStatus
           in if rewardStatus = PAID \<and> commissionUsdt reward > 0
              then
                (let req = \<lparr>wr_walletAddress = walletAddress owner,
                            wr_amountUsdt = commissionUsdt reward,
                            wr_rewardId = reward_id reward\<rparr>
                 in case requestAgentWithdrawal req of
                      Thrown message \<Rightarrow> (Json 400 (Failure message), d', [req])
                    | Resolved withdrawalResult \<Rightarrow>
                        (Json 200 (Success (PostbackData (reward_id reward) (status reward)
                           (walletAddress owner)
                           (if \<not> success withdrawalResult then error withdrawalResult
                            else None))),
                         d', [req]))
              else
                (Json 200 (Success (PostbackData (reward_id reward) (status reward)
                    (walletAddress owner) None)),
                 d', [])))"

text \<open>Postbacks handled one after the other, each at its own clock reading.\<close>

fun run_postbacks ::
  "(withdrawal_request \<Rightarrow> withdrawal_outcome) \<Rightarrow> (agentReward list \<Rightarrow> nat) \<Rightarrow> db
     \<Rightarrow> (nat \<times> postback) list \<Rightarrow> db" where
  "run_postbacks rq pick d [] = d"
| "run_postbacks rq pick d ((now, b) # ps) =
     run_postbacks rq pick (fst (snd (postback_handler rq pick now d b))) ps"

text \<open>The rows of the reward table that belong to a link and carry a given order identifier.\<close>

definition rewards_for :: "db \<Rightarrow> nat \<Rightarrow> string \<Rightarrow> agentReward list" where
  "rewards_for d lid oid = filter (reward_matches lid (Some oid)) (rewards d)"

section \<open>Link generation (routes.ts, POST /links)\<close>

record cashbackRateEntry =
  cashbackPercent :: real
  cashbackAmount :: real

record merchant =
  m_id :: string
  m_slugId :: string
  m_name :: string
  m_url :: string
  thirdPartyType :: string
  campaignId :: string
  cashbackRates :: "cashbackRateEntry list"

record generateLinkBody =
  gl_walletAddress :: string
  gl_merchantId :: string

text \<open>
  What the handler takes from outside the store: the catalog lookup, the two link
  generation paths (\<open>Inl\<close> is a thrown error with its message), the entropy and clock
  strings of \<open>generateSubId\<close>, the successive draws of \<open>generateShortCode()\<close> (the draw
  made after \<open>n\<close> collisions is \<open>generateShortCode n\<close>), and the configured base of short
  URLs.
\<close>

record environment =
  getMerchant :: "string \<Rightarrow> merchant option"
  generateAffiliateLink :: "merchant \<Rightarrow> string \<Rightarrow> string + string"
  generateTrackingLink :: "string \<Rightarrow> string \<Rightarrow> string + string"
  random :: string
  timestamp :: string
  generateShortCode :: "nat \<Rightarrow> string"
  SHORT_URL_BASE :: string

text \<open>
  The loop that mints a short code: draw, look the code up, stop when it is free,
  otherwise count the collision and throw once the count exceeds 10. On success the
  result carries the code and the final value of \<open>attempts\<close>.
\<close>

function mintShortCode :: "(nat \<Rightarrow> string) \<Rightarrow> db \<Rightarrow> nat \<Rightarrow> string + string \<times> nat" where
  "mintShortCode draw d attempts =
     (case findUnique_link_shortCode d (draw attempts) of
        None \<Rightarrow> Inr (draw attempts, attempts)
      | Some existing \<Rightarrow>
          if Suc attempts > 10 then Inl ''Failed to generate unique short code''
          else mintShortCode draw d (Suc attempts))"
  by pat_completeness auto
termination
  by (relation "measure (\<lambda>(draw, d, attempts). 11 - attempts)") auto

definition buildShortUrl :: "string \<Rightarrow> string \<Rightarrow> string" where
  "buildShortUrl base code = base @ ''/'' @ code"

text \<open>Find or create the agent of a normalised wallet address.\<close>

definition find_or_create_agent :: "db \<Rightarrow> string \<Rightarrow> agent \<times> db" where
  "find_or_create_agent d normalizedWallet =
     (case findUnique_agent d normalizedWallet of
        Some a \<Rightarrow> (a, d)
      | None \<Rightarrow>
          (\<lparr>agent_id = nextId d, walletAddress = normalizedWallet\<rparr>,
           d\<lparr>agents := agents d @ [\<lparr>agent_id = nextId d, walletAddress = normalizedWallet\<rparr>],
             nextId := Suc (nextId d)\<rparr>))"

text \<open>
  The handler. Every error thrown inside its \<open>try\<close> block reaches the one \<open>catch\<close>, which
  answers with status 400 and the error's message; the message of a schema violation is
  abbreviated to \<open>ZodError\<close>.
\<close>

definition links_handler :: "environment \<Rightarrow> db \<Rightarrow> generateLinkBody \<Rightarrow> response \<times> db" where
  "links_handler env d b =
     (if \<not> (walletAddressSchema (gl_walletAddress b) \<and> gl_merchantId b \<noteq> [])
      then (Json 400 (Failure ''ZodError''), d)
      else
        (let normalizedWallet = toLowerCase (gl_walletAddress b)
         in case getMerchant env (gl_merchantId b) of
              None \<Rightarrow> (Json 404 (Failure ''Merchant not found''), d)
            | Some merchant \<Rightarrow>
                if cashbackRates merchant = []
                then (Json 400 (Failure ''No USDT cashback available for this merchant''), d)
                else
                  (let (agent, d1) = find_or_create_agent d normalizedWallet;
                       sub = generateSubId normalizedWallet (random env) (timestamp env);
                       tracking =
                         (case generateAffiliateLink env merchant sub of
                            Inr u \<Rightarrow> Inr u
                          | Inl e \<Rightarrow> generateTrackingLink env (m_id merchant) sub)
                   in case tracking of
                        Inl message \<Rightarrow> (Json 400 (Failure message), d1)
                      | Inr tracking_url \<Rightarrow>
                          (case mintShortCode (generateShortCode env) d1 0 of
                             Inl message \<Rightarrow> (Json 400 (Failure message), d1)
                           | Inr (code, attempts) \<Rightarrow>
                               (let usdtRate = hd (cashbackRates merchant);
                                    link =
                                      \<lparr>link_id = nextId d1,
                                       link_agentId = agent_id agent,
                                       merchantId = m_id merchant,
                                       merchantName = m_name merchant,
                                       merchantSlug = or_str (Some (m_slugId merchant)) (m_id merchant),
                                       subId = sub,
                                       trackingUrl = tracking_url,
                                       shortCode = code,
                                       cashbackRate =
                                         or_num (Some (cashbackPercent usdtRate)) (cashbackAmount usdtRate),
                                       clickCount = 0,
                                       lastClickAt = None\<rparr>
                                in (Json 200 (Success (LinkData (link_id link) (m_name merchant)
                                       (cashbackRate link)
                                       (buildShortUrl (SHORT_URL_BASE env) code)
                                       normalizedWallet)),
                                    d1\<lparr>links := links d1 @ [link],
                                       nextId := Suc (nextId d1)\<rparr>))))))"

section \<open>Short-code redirect (routes.ts, GET /go/:code)\<close>

text \<open>
  The awaited click-statistics update either completes or rejects with an error; which of
  the two happens is decided by the store and is an input of the handler.
\<close>

datatype outcome = Fulfilled | Rejected string

definition go_handler :: "outcome \<Rightarrow> nat \<Rightarrow> db \<Rightarrow> string \<Rightarrow> response \<times> db" where
  "go_handler update_outcome now d code =
     (case findUnique_link_shortCode d code of
        None \<Rightarrow> (Json 404 (Failure ''Link not found''), d)
      | Some link \<Rightarrow>
          (case update_outcome of
             Rejected message \<Rightarrow> (Json 500 (Failure message), d)
           | Fulfilled \<Rightarrow>
               (Redirect 302 (trackingUrl link),
                d\<lparr>links := map (\<lambda>l. if link_id l = link_id link
                                     then l\<lparr>clickCount := clickCount l + 1,
                                            lastClickAt := Some now\<rparr>
                                     else l)
                               (links d)\<rparr>)))"

section \<open>Earnings summary (routes.ts, GET /earnings)\<close>

text \<open>\<open>agent.rewards\<close> with \<open>orderBy: { createdAt: 'desc' }\<close>: the agent's rows, newest first.\<close>

definition agent_rewards :: "db \<Rightarrow> agent \<Rightarrow> agentReward list" where
  "agent_rewards d a = rev (filter (\<lambda>r. reward_agentId r = agent_id a) (rewards d))"

text \<open>
  One turn of the \<open>for\<close> loop over the rewards: the \<open>switch\<close> on the status. The \<open>+=\<close> of
  the loop is the addition of doubles; it is the parameter \<open>js_add\<close>, of which nothing is
  assumed.
\<close>

definition add_reward :: "(jsnumber \<Rightarrow> jsnumber \<Rightarrow> jsnumber) \<Rightarrow> byStatus \<Rightarrow> agentReward \<Rightarrow> byStatus" where
  "add_reward js_add acc reward =
     (let amount = Number (commissionUsdt reward)
      in case status reward of
           NOT_TRACKED \<Rightarrow> acc\<lparr>not_tracked := js_add (not_tracked acc) amount\<rparr>
         | PENDING \<Rightarrow> acc\<lparr>pending := js_add (pending acc) amount\<rparr>
         | COMMISSIONED \<Rightarrow> acc\<lparr>commissioned := js_add (commissioned acc) amount\<rparr>
         | PAID \<Rightarrow> acc\<lparr>paid := js_add (paid acc) amount\<rparr>
         | CANCELLED \<Rightarrow> acc\<lparr>cancelled := js_add (cancelled acc) amount\<rparr>)"

definition zero_byStatus :: byStatus where
  "zero_byStatus =
     \<lparr>not_tracked = Number 0, pending = Number 0, commissioned = Number 0, paid = Number 0,
      cancelled = Number 0\<rparr>"

definition earnings_handler :: "(jsnumber \<Rightarrow> jsnumber \<Rightarrow> jsnumber) \<Rightarrow> db \<Rightarrow> string \<Rightarrow> response" where
  "earnings_handler js_add d w =
     (if \<not> walletAddressSchema w then Json 400 (Failure ''ZodError'')
      else
        (let normalizedWallet = toLowerCase w
         in case findUnique_agent d normalizedWallet of
              None \<Rightarrow> Json 200 (Success (EarningsData normalizedWallet (Number 0) zero_byStatus 0 []))
            | Some a \<Rightarrow>
                (let by_status = foldl (add_reward js_add) zero_byStatus (agent_rewards d a);
                     totalEarned = js_add (commissioned by_status) (paid by_status)
                 in Json 200 (Success (EarningsData normalizedWallet totalEarned by_status
                      (length (filter (\<lambda>l. link_agentId l = agent_id a) (links d)))
                      (take 10 (agent_rewards d a)))))))"

text \<open>The \<open>totalEarnedUsdt\<close> field of an earnings response.\<close>

fun totalEarnedUsdt :: "response \<Rightarrow> jsnumber option" where
  "totalEarnedUsdt (Json c (Success (EarningsData w earned bs n recent))) = Some earned"
| "totalEarnedUsdt r = None"

text \<open>
  The double sum of the commissions of a list of rewards, accumulated from \<open>0\<close> in the
  order of the list.
\<close>

definition js_sum :: "(jsnumber \<Rightarrow> jsnumber \<Rightarrow> jsnumber) \<Rightarrow> agentReward list \<Rightarrow> jsnumber" where
  "js_sum js_add rs = foldl (\<lambda>acc r. js_add acc (Number (commissionUsdt r))) (Number 0) rs"

section \<open>Concrete stores and requests used in the examples\<close>

definition example_db :: db where
  "example_db = \<lparr>agents = [\<lparr>agent_id = 1, walletAddress = ''0xaaaa000000000000000000000000000000000001''\<rparr>],
          links = [\<lparr>link_id = 2, link_agentId = 1, merchantId = ''m1'', merchantName = ''Trip'',
                    merchantSlug = ''trip-com'', subId = ''agent_aaaa0000_k3j9_lq9x'',
                    trackingUrl = ''https://track.example/t1'', shortCode = ''abc2345'',
                    cashbackRate = 4.5, clickCount = 0, lastClickAt = None\<rparr>],
          rewards = [], nextId = 3\<rparr>"

definition example_link :: agentLink where
  "example_link = hd (links example_db)"

definition example_agent :: agent where
  "example_agent = hd (agents example_db)"

definition example_postback :: "string option \<Rightarrow> real option \<Rightarrow> string option \<Rightarrow> postback" where
  "example_postback oid commission st =
     \<lparr>pb_subId = ''agent_aaaa0000_k3j9_lq9x'', pb_orderId = oid, pb_orderAmount = None,
      pb_orderCurrency = None, pb_commissionUsdt = commission, pb_status = st,
      pb_source = None\<rparr>"

text \<open>
  Four payout requesters: one that succeeds, one that reports a failure with a text, one
  that reports a failure without a text, and one that throws.
\<close>

definition payout_ok :: "withdrawal_request \<Rightarrow> withdrawal_outcome" where
  "payout_ok req = Resolved \<lparr>success = True, error = None\<rparr>"

definition payout_down :: "withdrawal_request \<Rightarrow> withdrawal_outcome" where
  "payout_down req = Resolved \<lparr>success = False, error = Some ''upstream unavailable''\<rparr>"

definition payout_silent :: "withdrawal_request \<Rightarrow> withdrawal_outcome" where
  "payout_silent req = Resolved \<lparr>success = False, error = None\<rparr>"

definition payout_throws :: "withdrawal_request \<Rightarrow> withdrawal_outcome" where
  "payout_throws req = Thrown ''fetch failed''"

text \<open>A store that returns the oldest of the matching rows.\<close>

definition oldest_row :: "agentReward list \<Rightarrow> nat" where
  "oldest_row ms = 0"

text \<open>
  Addition of two doubles whose exact sum is a double again, as it is for the small whole
  numbers of the examples.
\<close>

fun exact_add :: "jsnumber \<Rightarrow> jsnumber \<Rightarrow> jsnumber" where
  "exact_add (Number x) (Number y) = Number (x + y)"
| "exact_add x y = NaN"

definition example_run :: "(nat \<times> postback) list" where
  "example_run = [(1000, example_postback (Some ''O1'') (Some 10) (Some ''approved'')),
                  (2000, example_postback (Some ''O1'') None (Some ''success''))]"

definition example_same_instant :: "(nat \<times> postback) list" where
  "example_same_instant = [(1000, example_postback (Some ''O1'') (Some 10) (Some ''approved'')),
                           (1000, example_postback (Some ''O1'') None (Some ''success''))]"

definition example_db1 :: db where
  "example_db1 = fst (snd (postback_handler payout_ok oldest_row 1000 example_db
                    (example_postback (Some ''O1'') (Some 10) (Some ''approved''))))"

definition example_merchant :: merchant where
  "example_merchant =
     \<lparr>m_id = ''m1'', m_slugId = ''trip-com'', m_name = ''Trip'', m_url = ''https://trip.example'',
      thirdPartyType = ''involve'', campaignId = ''c9'',
      cashbackRates = [\<lparr>cashbackPercent = 4.5, cashbackAmount = 0\<rparr>]\<rparr>"

text \<open>An environment whose every short-code draw is the code the stored link already has.\<close>

definition example_env :: environment where
  "example_env =
     \<lparr>getMerchant = (\<lambda>i. if i = ''m1'' then Some example_merchant else None),
      generateAffiliateLink =
        (\<lambda>m s. Inr (''https://invol.co/click?offer_id='' @ campaignId m @ ''&aff_sub='' @ s)),
      generateTrackingLink = (\<lambda>i s. Inl ''API error: 503''),
      random = ''p0q1'',
      timestamp = ''lq9y'',
      generateShortCode = (\<lambda>n. ''abc2345''),
      SHORT_URL_BASE = ''https://lag.example/go''\<rparr>"

definition example_link_request :: generateLinkBody where
  "example_link_request =
     \<lparr>gl_walletAddress = ''0xAAAA000000000000000000000000000000000001'', gl_merchantId = ''m1''\<rparr>"

definition example_ledger :: "(nat \<times> postback) list" where
  "example_ledger = [(1000, example_postback (Some ''O1'') (Some 10) (Some ''approved'')),
                     (1500, example_postback (Some ''O2'') (Some 7) (Some ''pending'')),
                     (2000, example_postback (Some ''O1'') None (Some ''success'')),
                     (2500, example_postback (Some ''O3'') (Some 5) (Some ''Approved''))]"

definition example_db2 :: db where
  "example_db2 = run_postbacks payout_ok oldest_row example_db example_ledger"

section \<open>Facts about the model\<close>

lemmas example_defs = example_db_def example_link_def example_agent_def example_postback_def
  payout_ok_def payout_down_def payout_silent_def payout_throws_def oldest_row_def

subsection \<open>The identity codec\<close>

lemma is_hex_lower: "is_hex c \<Longrightarrow> is_lower_hex (toLowerCase_char c)"
proof -
  assume "is_hex c"
  then have "c = CHR ''a'' \<or> c = CHR ''b'' \<or> c = CHR ''c'' \<or> c = CHR ''d'' \<or> c = CHR ''e''
      \<or> c = CHR ''f'' \<or> c = CHR ''A'' \<or> c = CHR ''B'' \<or> c = CHR ''C'' \<or> c = CHR ''D''
      \<or> c = CHR ''E'' \<or> c = CHR ''F'' \<or> c = CHR ''0'' \<or> c = CHR ''1'' \<or> c = CHR ''2''
      \<or> c = CHR ''3'' \<or> c = CHR ''4'' \<or> c = CHR ''5'' \<or> c = CHR ''6'' \<or> c = CHR ''7''
      \<or> c = CHR ''8'' \<or> c = CHR ''9''"
    by (simp add: is_hex_def)
  then show ?thesis
    by (elim disjE) (simp_all add: is_lower_hex_def toLowerCase_char_def)
qed

lemma extract_of_shape:
  assumes "length p = 8" and "list_all is_lower_hex p"
  shows "extractWalletPrefix (''agent_'' @ p @ ''_'' @ rest) = Some p"
  using assms by (simp add: extractWalletPrefix_def)

lemma shape_of_extract:
  assumes "extractWalletPrefix s = Some g"
  shows "s = ''agent_'' @ g @ ''_'' @ drop 15 s \<and> length g = 8 \<and> list_all is_lower_hex g"
proof -
  from assms have a: "take 6 s = ''agent_''" and g: "g = take 8 (drop 6 s)"
    and l: "length g = 8" and h: "list_all is_lower_hex g" and u: "take 1 (drop 14 s) = ''_''"
    by (auto simp: extractWalletPrefix_def Let_def split: if_splits)
  have s1: "s = take 6 s @ drop 6 s"
    by (rule append_take_drop_id [symmetric])
  have s2: "drop 6 s = take 8 (drop 6 s) @ drop 8 (drop 6 s)"
    by (rule append_take_drop_id [symmetric])
  have s3: "drop 14 s = take 1 (drop 14 s) @ drop 1 (drop 14 s)"
    by (rule append_take_drop_id [symmetric])
  have s4: "drop 8 (drop 6 s) = drop 14 s" and s5: "drop 1 (drop 14 s) = drop 15 s"
    by simp_all
  have "s = take 6 s @ take 8 (drop 6 s) @ take 1 (drop 14 s) @ drop 15 s"
    using s1 s2 s3 s4 s5 by metis
  then show ?thesis using a g l h u by simp
qed

lemma extract_None_iff: "(extractWalletPrefix s = None) = (\<not> decoder_pattern s)"
proof
  assume n: "extractWalletPrefix s = None"
  show "\<not> decoder_pattern s"
  proof
    assume "decoder_pattern s"
    then obtain p rest where "s = ''agent_'' @ p @ ''_'' @ rest" "length p = 8" "list_all is_lower_hex p"
      unfolding decoder_pattern_def by blast
    then have "extractWalletPrefix s = Some p" using extract_of_shape by blast
    with n show False by simp
  qed
next
  assume n: "\<not> decoder_pattern s"
  show "extractWalletPrefix s = None"
  proof (cases "extractWalletPrefix s")
    case None then show ?thesis .
  next
    case (Some g)
    from shape_of_extract[OF Some] have "decoder_pattern s"
      unfolding decoder_pattern_def by blast
    with n show ?thesis by simp
  qed
qed

lemma prefix_of_valid:
  assumes "walletAddressSchema w"
  shows "length (toLowerCase (slice 2 10 w)) = 8 \<and> list_all is_lower_hex (toLowerCase (slice 2 10 w))"
proof -
  from assms have l: "length (drop 2 w) = 40" and h: "list_all is_hex (drop 2 w)"
    by (simp_all add: walletAddressSchema_def)
  have "list_all is_hex (take 8 (drop 2 w))"
    using h by (auto simp: list_all_iff dest: in_set_takeD)
  then have "list_all is_lower_hex (toLowerCase (slice 2 10 w))"
    by (auto simp: list_all_iff toLowerCase_def slice_def is_hex_lower)
  moreover have "length (toLowerCase (slice 2 10 w)) = 8"
    using l by (simp add: toLowerCase_def slice_def)
  ultimately show ?thesis by simp
qed

lemma format_decodes:
  assumes "token_format s"
  shows "extractWalletPrefix s = Some (take 8 (drop 6 s))"
  using assms by (simp add: token_format_def extractWalletPrefix_def Let_def)

lemma base36_no_underscore: "is_base36 c \<Longrightarrow> c \<noteq> CHR ''_''"
  by (auto simp: is_base36_def)

lemma format_of_parts:
  assumes p: "length p = 8" "list_all is_lower_hex p"
    and r: "list_all is_base36 r"
    and t: "t \<noteq> []" "list_all is_base36 t"
  shows "token_format (''agent_'' @ p @ ''_'' @ r @ ''_'' @ t)"
proof -
  let ?s = "''agent_'' @ p @ ''_'' @ r @ ''_'' @ t"
  have d15: "drop 15 ?s = r @ ''_'' @ t"
    using p(1) by simp
  have tw: "takeWhile (\<lambda>c. c \<noteq> CHR ''_'') (r @ ''_'' @ t) = r"
    using r by (induction r) (auto dest: base36_no_underscore)
  have f: "take 8 (drop 6 ?s) = p" "take 6 ?s = ''agent_''" "take 1 (drop 14 ?s) = ''_''"
    using p(1) by simp_all
  show ?thesis
    unfolding token_format_def Let_def d15 tw f
    using p r t by simp
qed

text \<open>
  C9 (amended). For a wallet address accepted by the schema, decoding the token that
  \<open>generateSubId\<close> builds from it returns the lower-cased eight hex characters that follow
  \<open>0x\<close>, whatever the random and time components are, and with base-36 components the
  token has the format of the specification. The decoder returns nothing exactly on the
  strings that do not start with \<open>agent_\<close>, eight characters of \<open>[a-f0-9]\<close> and \<open>_\<close>; every
  string of the token format decodes to its fingerprint.
\<close>

theorem C9_fingerprint:
  "(walletAddressSchema w \<longrightarrow>
      extractWalletPrefix (generateSubId w r t) = Some (toLowerCase (take 8 (drop 2 w))))
   \<and> (walletAddressSchema w \<and> list_all is_base36 r \<and> list_all is_base36 t \<and> t \<noteq> []
        \<longrightarrow> token_format (generateSubId w r t))
   \<and> ((extractWalletPrefix s = None) = (\<not> decoder_pattern s))
   \<and> (token_format s \<longrightarrow> extractWalletPrefix s = Some (take 8 (drop 6 s)))"
proof -
  have a: "extractWalletPrefix (generateSubId w r t) = Some (toLowerCase (take 8 (drop 2 w)))"
    if v: "walletAddressSchema w"
  proof -
    from prefix_of_valid[OF v]
    have "extractWalletPrefix (''agent_'' @ toLowerCase (slice 2 10 w) @ ''_'' @ (r @ ''_'' @ t))
          = Some (toLowerCase (slice 2 10 w))"
      by (intro extract_of_shape) simp_all
    then show ?thesis by (simp add: generateSubId_def Let_def slice_def)
  qed
  have b: "token_format (generateSubId w r t)"
    if v: "walletAddressSchema w" and r: "list_all is_base36 r"
      and t: "list_all is_base36 t" "t \<noteq> []"
  proof -
    from prefix_of_valid[OF v] r t
    have "token_format (''agent_'' @ toLowerCase (slice 2 10 w) @ ''_'' @ r @ ''_'' @ t)"
      by (intro format_of_parts) simp_all
    then show ?thesis by (simp add: generateSubId_def Let_def)
  qed
  from a b extract_None_iff format_decodes show ?thesis by blast
qed

theorem C9_fingerprint_witness:
  "walletAddressSchema ''0xAbCdEf0123456789abcdef0123456789abcdef01''
   \<and> extractWalletPrefix (generateSubId ''0xAbCdEf0123456789abcdef0123456789abcdef01'' ''k3j9'' ''lq9x'')
       = Some ''abcdef01''
   \<and> token_format (generateSubId ''0xAbCdEf0123456789abcdef0123456789abcdef01'' ''k3j9'' ''lq9x'')
   \<and> extractWalletPrefix ''agent_ABCDEF01_k3j9_lq9x'' = None
   \<and> \<not> decoder_pattern ''agent_ABCDEF01_k3j9_lq9x''"
proof -
  have v: "walletAddressSchema ''0xAbCdEf0123456789abcdef0123456789abcdef01''"
    by (simp add: walletAddressSchema_def is_hex_def)
  have l: "toLowerCase (take 8 (drop 2 ''0xAbCdEf0123456789abcdef0123456789abcdef01'')) = ''abcdef01''"
    by (simp add: toLowerCase_def toLowerCase_char_def)
  have n: "extractWalletPrefix ''agent_ABCDEF01_k3j9_lq9x'' = None"
    by (simp add: extractWalletPrefix_def is_lower_hex_def)
  have b: "list_all is_base36 ''k3j9''" "list_all is_base36 ''lq9x''" "''lq9x'' \<noteq> []"
    by (simp_all add: is_base36_def)
  from C9_fingerprint[of "''0xAbCdEf0123456789abcdef0123456789abcdef01''" "''k3j9''" "''lq9x''"
      "''agent_ABCDEF01_k3j9_lq9x''"] v l n b
  show ?thesis by simp
qed

text \<open>
  A string that is not of the token format, as it has no random and no time component,
  and that decodes to a fingerprint all the same.
\<close>

theorem C9_prefix_only_counterexample:
  "\<not> token_format ''agent_abcdef01_''
   \<and> extractWalletPrefix ''agent_abcdef01_'' = Some ''abcdef01''"
  by (simp add: token_format_def extractWalletPrefix_def is_lower_hex_def)

lemmas handler_defs = postback_handler_def findUnique_link_subId_def mapStatus_def
  toLowerCase_def toLowerCase_char_def upsert_reward_def findFirst_reward_def reward_matches_def
  or_undefined_def new_reward_def merge_reward_def or_num_def or_str_def store_json_def

subsection \<open>Lookups and the reward write\<close>

lemma findFirst_None_iff:
  "(findFirst_reward pick d lid oid = None) = (filter (reward_matches lid oid) (rewards d) = [])"
  by (simp add: findFirst_reward_def Let_def)

lemma findFirst_in:
  assumes "findFirst_reward pick d lid oid = Some r"
  shows "r \<in> set (rewards d)" and "reward_matches lid oid r"
proof -
  let ?ms = "filter (reward_matches lid oid) (rewards d)"
  from assms have ne: "?ms \<noteq> []" and r: "r = ?ms ! (pick ?ms mod length ?ms)"
    by (auto simp: findFirst_reward_def Let_def split: if_splits)
  from ne have "pick ?ms mod length ?ms < length ?ms" by simp
  then have "r \<in> set ?ms" unfolding r by (rule nth_mem)
  then show "r \<in> set (rewards d)" and "reward_matches lid oid r" by simp_all
qed

lemma findFirst_single:
  assumes "filter (reward_matches lid oid) (rewards d) = [r]"
  shows "findFirst_reward pick d lid oid = Some r"
  using assms by (simp add: findFirst_reward_def Let_def)

lemma store_json_single [simp]: "store_json [(k, v)] = [(k, v)]"
  by (simp add: store_json_def)

lemma merge_keeps_key [simp]:
  "linkId (merge_reward now b st r) = linkId r"
  "orderId (merge_reward now b st r) = orderId r"
  "reward_id (merge_reward now b st r) = reward_id r"
  "reward_agentId (merge_reward now b st r) = reward_agentId r"
  by (simp_all add: merge_reward_def)

lemma merge_fields [simp]:
  "status (merge_reward now b st r) = st"
  "commissionUsdt (merge_reward now b st r) = or_num (pb_commissionUsdt b) (commissionUsdt r)"
  "statusHistory (merge_reward now b st r) = store_json (js_set (statusHistory r) now st)"
  "postbackData (merge_reward now b st r) = b"
  by (simp_all add: merge_reward_def)

lemma new_fields [simp]:
  "linkId (new_reward i now l b st) = link_id l"
  "orderId (new_reward i now l b st) = pb_orderId b"
  "reward_id (new_reward i now l b st) = i"
  "status (new_reward i now l b st) = st"
  "commissionUsdt (new_reward i now l b st) = or_num (pb_commissionUsdt b) 0"
  "statusHistory (new_reward i now l b st) = [(now, st)]"
  "postbackData (new_reward i now l b st) = b"
  by (simp_all add: new_reward_def)

lemma matches_merge [simp]:
  "reward_matches lid oid (if reward_id x = i then merge_reward now b st x else x)
     = reward_matches lid oid x"
  by (simp add: reward_matches_def split: option.splits)

lemma upsert_found:
  assumes "findFirst_reward pick d (link_id l) (or_undefined (pb_orderId b)) = Some r"
  shows "upsert_reward pick now d l b st =
           (merge_reward now b st r,
            d\<lparr>rewards := map (\<lambda>x. if reward_id x = reward_id r
                                    then merge_reward now b st x else x) (rewards d)\<rparr>)"
  using assms by (simp add: upsert_reward_def)

lemma upsert_new:
  assumes "findFirst_reward pick d (link_id l) (or_undefined (pb_orderId b)) = None"
  shows "upsert_reward pick now d l b st =
           (new_reward (nextId d) now l b st,
            d\<lparr>rewards := rewards d @ [new_reward (nextId d) now l b st],
              nextId := Suc (nextId d)\<rparr>)"
  using assms by (simp add: upsert_reward_def)

lemma upsert_keeps_links [simp]:
  "links (snd (upsert_reward pick now d l b st)) = links d"
  "agents (snd (upsert_reward pick now d l b st)) = agents d"
  by (simp_all add: upsert_reward_def split: option.splits)

lemma upsert_persisted:
  "fst (upsert_reward pick now d l b st) \<in> set (rewards (snd (upsert_reward pick now d l b st)))"
proof (cases "findFirst_reward pick d (link_id l) (or_undefined (pb_orderId b))")
  case None
  then show ?thesis by (simp add: upsert_new)
next
  case (Some r)
  then have "r \<in> set (rewards d)"
    by (rule findFirst_in)
  then have "merge_reward now b st r
      \<in> (\<lambda>x. if reward_id x = reward_id r then merge_reward now b st x else x) ` set (rewards d)"
    by (rule rev_image_eqI) simp
  with Some show ?thesis by (simp add: upsert_found)
qed

lemma upsert_status [simp]: "status (fst (upsert_reward pick now d l b st)) = st"
  by (simp add: upsert_reward_def split: option.splits)

lemma handler_db:
  assumes "findUnique_link_subId d (pb_subId b) = Some (l, owner)"
  shows "fst (snd (postback_handler rq pick now d b))
           = snd (upsert_reward pick now d l b (mapStatus (pb_status b)))"
  using assms
  by (simp add: postback_handler_def Let_def split: prod.splits withdrawal_outcome.splits)

lemma handler_unknown:
  assumes "findUnique_link_subId d (pb_subId b) = None"
  shows "postback_handler rq pick now d b = (Json 404 (Failure ''Link not found''), d, [])"
  using assms by (simp add: postback_handler_def)

lemma upsert_keeps_lookup:
  "findUnique_link_subId (snd (upsert_reward pick now d l b st)) s = findUnique_link_subId d s"
  by (simp add: findUnique_link_subId_def cong: option.case_cong)

lemma handler_keeps_link:
  "findUnique_link_subId (fst (snd (postback_handler rq pick now d b))) s
     = findUnique_link_subId d s"
proof (cases "findUnique_link_subId d (pb_subId b)")
  case None
  then show ?thesis by (simp add: handler_unknown)
next
  case (Some p)
  obtain l owner where "p = (l, owner)" by (cases p)
  with Some show ?thesis
    by (simp add: handler_db upsert_keeps_lookup)
qed

lemma handler_found:
  assumes "findUnique_link_subId d (pb_subId b) = Some (link, owner)"
    and "upsert_reward pick now d link b (mapStatus (pb_status b)) = (reward, d')"
  shows "\<exists>resp calls. postback_handler rq pick now d b = (resp, d', calls)
           \<and> reward \<in> set (rewards d')
           \<and> status reward = mapStatus (pb_status b)
           \<and> calls = (if status reward = PAID \<and> commissionUsdt reward > 0
                      then [\<lparr>wr_walletAddress = walletAddress owner,
                             wr_amountUsdt = commissionUsdt reward,
                             wr_rewardId = reward_id reward\<rparr>]
                      else [])
           \<and> resp = (if calls = []
                     then Json 200 (Success (PostbackData (reward_id reward) (status reward)
                            (walletAddress owner) None))
                     else case rq (hd calls) of
                            Thrown message \<Rightarrow> Json 400 (Failure message)
                          | Resolved result \<Rightarrow>
                              Json 200 (Success (PostbackData (reward_id reward) (status reward)
                                (walletAddress owner)
                                (if \<not> success result then error result else None))))"
proof -
  have st: "status reward = mapStatus (pb_status b)"
    using upsert_status [of pick now d link b "mapStatus (pb_status b)"] assms(2) by simp
  have mem: "reward \<in> set (rewards d')"
    using upsert_persisted [of pick now d link b "mapStatus (pb_status b)"] assms(2) by simp
  show ?thesis
    using assms st mem
    by (simp add: postback_handler_def Let_def split: withdrawal_outcome.splits)
qed

subsection \<open>Payout on settlement\<close>

text \<open>
  C1 (amended). For a postback whose link is found, let \<open>reward\<close> be the merged reward and
  \<open>d'\<close> the store after the write. The handler leaves exactly \<open>d'\<close> behind, with \<open>reward\<close>
  in it, whatever the payout requester does. The requester is called once, with the owner's
  wallet address, the reward's commission and the reward's identifier, when the canonical
  status is \<open>PAID\<close> and that commission is positive, and not at all otherwise. When the call
  resolves, the response is a 200 success, which carries the result's error text as
  \<open>withdrawalError\<close> if the result has \<open>success = false\<close> and an error text. When the call
  throws, the response is a 400 failure with the error's message.
\<close>

theorem C1_payout_on_paid:
  assumes "findUnique_link_subId d (pb_subId b) = Some (link, owner)"
    and "upsert_reward pick now d link b (mapStatus (pb_status b)) = (reward, d')"
  shows "\<exists>resp calls. postback_handler rq pick now d b = (resp, d', calls)
           \<and> reward \<in> set (rewards d')
           \<and> status reward = mapStatus (pb_status b)
           \<and> calls = (if status reward = PAID \<and> commissionUsdt reward > 0
                      then [\<lparr>wr_walletAddress = walletAddress owner,
                             wr_amountUsdt = commissionUsdt reward,
                             wr_rewardId = reward_id reward\<rparr>]
                      else [])
           \<and> resp = (if calls = []
                     then Json 200 (Success (PostbackData (reward_id reward) (status reward)
                            (walletAddress owner) None))
                     else case rq (hd calls) of
                            Thrown message \<Rightarrow> Json 400 (Failure message)
                          | Resolved result \<Rightarrow>
                              Json 200 (Success (PostbackData (reward_id reward) (status reward)
                                (walletAddress owner)
                                (if \<not> success result then error result else None))))"
  using assms by (rule handler_found)

lemma example_link_found:
  "findUnique_link_subId example_db ''agent_aaaa0000_k3j9_lq9x'' = Some (example_link, example_agent)"
  by (simp add: example_defs findUnique_link_subId_def)

lemma example_first_paid:
  "upsert_reward pick 1000 example_db example_link
      (example_postback (Some ''O1'') (Some 10) (Some ''success'')) PAID
     = (new_reward 3 1000 example_link
          (example_postback (Some ''O1'') (Some 10) (Some ''success'')) PAID,
        example_db\<lparr>rewards := [new_reward 3 1000 example_link
          (example_postback (Some ''O1'') (Some 10) (Some ''success'')) PAID], nextId := 4\<rparr>)"
proof -
  let ?b = "example_postback (Some ''O1'') (Some 10) (Some ''success'')"
  have f: "findFirst_reward pick example_db (link_id example_link) (or_undefined (pb_orderId ?b)) = None"
    by (simp add: example_db_def findFirst_reward_def)
  show ?thesis
    unfolding upsert_new [OF f] by (simp add: example_db_def)
qed

lemma mapStatus_examples:
  "mapStatus (Some ''approved'') = COMMISSIONED"
  "mapStatus (Some ''success'') = PAID"
  "mapStatus (Some ''paid'') = PAID"
  "mapStatus (Some ''cancelled'') = CANCELLED"
  by (simp_all add: mapStatus_def toLowerCase_def toLowerCase_char_def)

theorem C1_payout_on_paid_witness:
  "findUnique_link_subId example_db ''agent_aaaa0000_k3j9_lq9x'' = Some (example_link, example_agent)
   \<and> postback_handler payout_down oldest_row 1000 example_db
          (example_postback (Some ''O1'') (Some 10) (Some ''success''))
      = (Json 200 (Success (PostbackData 3 PAID ''0xaaaa000000000000000000000000000000000001''
             (Some ''upstream unavailable''))),
         example_db\<lparr>rewards := [new_reward 3 1000 example_link
           (example_postback (Some ''O1'') (Some 10) (Some ''success'')) PAID], nextId := 4\<rparr>,
         [\<lparr>wr_walletAddress = ''0xaaaa000000000000000000000000000000000001'',
           wr_amountUsdt = 10, wr_rewardId = 3\<rparr>])"
proof -
  let ?b = "example_postback (Some ''O1'') (Some 10) (Some ''success'')"
  have l: "findUnique_link_subId example_db (pb_subId ?b) = Some (example_link, example_agent)"
    using example_link_found by (simp add: example_postback_def)
  have m: "mapStatus (pb_status ?b) = PAID"
    by (simp add: example_postback_def mapStatus_examples)
  have u: "upsert_reward oldest_row 1000 example_db example_link ?b (mapStatus (pb_status ?b))
      = (new_reward 3 1000 example_link ?b PAID,
         example_db\<lparr>rewards := [new_reward 3 1000 example_link ?b PAID], nextId := 4\<rparr>)"
    unfolding m by (rule example_first_paid)
  have w: "walletAddress example_agent = ''0xaaaa000000000000000000000000000000000001''"
    by (simp add: example_agent_def example_db_def)
  from C1_payout_on_paid [OF l u, of payout_down]
  have "postback_handler payout_down oldest_row 1000 example_db ?b
      = (Json 200 (Success (PostbackData 3 PAID ''0xaaaa000000000000000000000000000000000001''
             (Some ''upstream unavailable''))),
         example_db\<lparr>rewards := [new_reward 3 1000 example_link ?b PAID], nextId := 4\<rparr>,
         [\<lparr>wr_walletAddress = ''0xaaaa000000000000000000000000000000000001'',
           wr_amountUsdt = 10, wr_rewardId = 3\<rparr>])"
    by (simp add: w payout_down_def or_num_def example_postback_def)
  with example_link_found show ?thesis by simp
qed

text \<open>
  A payout call that throws: the reward is stored as \<open>PAID\<close> and the response is a 400
  failure. A payout call that reports a failure without a text: the response is a 200
  success with no \<open>withdrawalError\<close>.
\<close>

theorem C1_hard_failure_counterexample:
  "fst (postback_handler payout_throws oldest_row 1000 example_db
          (example_postback (Some ''O1'') (Some 10) (Some ''success'')))
     = Json 400 (Failure ''fetch failed'')
   \<and> map (\<lambda>r. (reward_id r, status r, commissionUsdt r))
        (rewards (fst (snd (postback_handler payout_throws oldest_row 1000 example_db
           (example_postback (Some ''O1'') (Some 10) (Some ''success''))))))
     = [(3, PAID, 10)]
   \<and> fst (postback_handler payout_silent oldest_row 1000 example_db
          (example_postback (Some ''O1'') (Some 10) (Some ''success'')))
     = Json 200 (Success (PostbackData 3 PAID ''0xaaaa000000000000000000000000000000000001'' None))"
proof -
  let ?b = "example_postback (Some ''O1'') (Some 10) (Some ''success'')"
  have l: "findUnique_link_subId example_db (pb_subId ?b) = Some (example_link, example_agent)"
    using example_link_found by (simp add: example_postback_def)
  have m: "mapStatus (pb_status ?b) = PAID"
    by (simp add: example_postback_def mapStatus_examples)
  have u: "upsert_reward oldest_row 1000 example_db example_link ?b (mapStatus (pb_status ?b))
      = (new_reward 3 1000 example_link ?b PAID,
         example_db\<lparr>rewards := [new_reward 3 1000 example_link ?b PAID], nextId := 4\<rparr>)"
    unfolding m by (rule example_first_paid)
  have w: "walletAddress example_agent = ''0xaaaa000000000000000000000000000000000001''"
    by (simp add: example_agent_def example_db_def)
  from handler_found [OF l u, of payout_throws]
  have a: "postback_handler payout_throws oldest_row 1000 example_db ?b
      = (Json 400 (Failure ''fetch failed''),
         example_db\<lparr>rewards := [new_reward 3 1000 example_link ?b PAID], nextId := 4\<rparr>,
         [\<lparr>wr_walletAddress = ''0xaaaa000000000000000000000000000000000001'',
           wr_amountUsdt = 10, wr_rewardId = 3\<rparr>])"
    by (simp add: w payout_throws_def or_num_def example_postback_def)
  from handler_found [OF l u, of payout_silent]
  have b: "postback_handler payout_silent oldest_row 1000 example_db ?b
      = (Json 200 (Success (PostbackData 3 PAID ''0xaaaa000000000000000000000000000000000001'' None)),
         example_db\<lparr>rewards := [new_reward 3 1000 example_link ?b PAID], nextId := 4\<rparr>,
         [\<lparr>wr_walletAddress = ''0xaaaa000000000000000000000000000000000001'',
           wr_amountUsdt = 10, wr_rewardId = 3\<rparr>])"
    by (simp add: w payout_silent_def or_num_def example_postback_def)
  show ?thesis
    unfolding a b by (simp add: or_num_def example_postback_def)
qed

subsection \<open>Merging postbacks into rewards\<close>

lemma or_undefined_present [simp]: "oid \<noteq> [] \<Longrightarrow> or_undefined (Some oid) = Some oid"
  by (simp add: or_undefined_def)

lemma js_set_fresh: "k \<notin> fst ` set h \<Longrightarrow> js_set h k v = h @ [(k, v)]"
  by (induction h) auto

lemma store_json_later:
  assumes "sorted (map fst h)" and "\<forall>k \<in> fst ` set h. k < now"
  shows "store_json (js_set h now st) = h @ [(now, st)]"
proof -
  have fresh: "now \<notin> fst ` set h" using assms(2) by auto
  have "sorted (map fst (h @ [(now, st)]))"
    using assms by (auto simp: sorted_append intro: less_imp_le)
  then have "sort_key fst (h @ [(now, st)]) = h @ [(now, st)]"
    by (rule sort_key_id_if_sorted)
  then show ?thesis by (simp add: store_json_def js_set_fresh [OF fresh])
qed

lemma rewards_for_map:
  assumes "\<And>x. reward_matches lid (Some oid) (g x) = reward_matches lid (Some oid) x"
    and "rewards d' = map g (rewards d)"
  shows "rewards_for d' lid oid = map g (rewards_for d lid oid)"
  using assms by (simp add: rewards_for_def filter_map comp_def)

text \<open>One postback that finds a reward.\<close>

lemma step_found:
  assumes l: "findUnique_link_subId d (pb_subId b) = Some (link, owner)"
    and f: "findFirst_reward pick d (link_id link) (or_undefined (pb_orderId b)) = Some r"
  shows "rewards (fst (snd (postback_handler rq pick now d b)))
           = map (\<lambda>x. if reward_id x = reward_id r
                        then merge_reward now b (mapStatus (pb_status b)) x else x) (rewards d)"
    and "nextId (fst (snd (postback_handler rq pick now d b))) = nextId d"
  by (simp_all add: handler_db [OF l] upsert_found [OF f])

text \<open>One postback that finds none.\<close>

lemma step_new:
  assumes l: "findUnique_link_subId d (pb_subId b) = Some (link, owner)"
    and f: "findFirst_reward pick d (link_id link) (or_undefined (pb_orderId b)) = None"
  shows "rewards (fst (snd (postback_handler rq pick now d b)))
           = rewards d @ [new_reward (nextId d) now link b (mapStatus (pb_status b))]"
    and "nextId (fst (snd (postback_handler rq pick now d b))) = Suc (nextId d)"
  by (simp_all add: handler_db [OF l] upsert_new [OF f])

text \<open>One postback for an order that has exactly one reward.\<close>

lemma step_single:
  assumes l: "findUnique_link_subId d (pb_subId b) = Some (link, owner)"
    and s: "rewards_for d (link_id link) oid = [r]"
    and b: "pb_orderId b = Some oid" and o: "oid \<noteq> []"
  shows "rewards_for (fst (snd (postback_handler rq pick now d b))) (link_id link) oid
           = [merge_reward now b (mapStatus (pb_status b)) r]"
    and "length (rewards (fst (snd (postback_handler rq pick now d b)))) = length (rewards d)"
    and "nextId (fst (snd (postback_handler rq pick now d b))) = nextId d"
proof -
  let ?g = "\<lambda>x. if reward_id x = reward_id r
                 then merge_reward now b (mapStatus (pb_status b)) x else x"
  have f: "findFirst_reward pick d (link_id link) (or_undefined (pb_orderId b)) = Some r"
    using s b o by (simp add: findFirst_single rewards_for_def)
  have rw: "rewards (fst (snd (postback_handler rq pick now d b))) = map ?g (rewards d)"
    using step_found(1) [OF l f] .
  have "rewards_for (fst (snd (postback_handler rq pick now d b))) (link_id link) oid
          = map ?g (rewards_for d (link_id link) oid)"
    by (rule rewards_for_map [OF _ rw]) simp
  then show "rewards_for (fst (snd (postback_handler rq pick now d b))) (link_id link) oid
           = [merge_reward now b (mapStatus (pb_status b)) r]"
    by (simp add: s)
  show "length (rewards (fst (snd (postback_handler rq pick now d b)))) = length (rewards d)"
    by (simp add: rw)
  show "nextId (fst (snd (postback_handler rq pick now d b))) = nextId d"
    using step_found(2) [OF l f] .
qed

text \<open>One postback for an order that has no reward yet.\<close>

lemma step_first:
  assumes l: "findUnique_link_subId d (pb_subId b) = Some (link, owner)"
    and e: "rewards_for d (link_id link) oid = []"
    and b: "pb_orderId b = Some oid" and o: "oid \<noteq> []"
  shows "rewards (fst (snd (postback_handler rq pick now d b)))
           = rewards d @ [new_reward (nextId d) now link b (mapStatus (pb_status b))]"
    and "rewards_for (fst (snd (postback_handler rq pick now d b))) (link_id link) oid
           = [new_reward (nextId d) now link b (mapStatus (pb_status b))]"
proof -
  let ?n = "new_reward (nextId d) now link b (mapStatus (pb_status b))"
  have f: "findFirst_reward pick d (link_id link) (or_undefined (pb_orderId b)) = None"
    using e b o by (simp add: findFirst_None_iff rewards_for_def)
  show rw: "rewards (fst (snd (postback_handler rq pick now d b))) = rewards d @ [?n]"
    using step_new(1) [OF l f] .
  have mt: "reward_matches (link_id link) (Some oid) ?n"
    by (simp add: reward_matches_def b)
  show "rewards_for (fst (snd (postback_handler rq pick now d b))) (link_id link) oid = [?n]"
    using e mt by (simp add: rewards_for_def rw)
qed

subsection \<open>Runs of postbacks for one order\<close>

lemma run_single:
  assumes "findUnique_link_subId d tok = Some (link, owner)"
    and "\<forall>p \<in> set ps. pb_subId (snd p) = tok \<and> pb_orderId (snd p) = Some oid"
    and "oid \<noteq> []"
    and "rewards_for d (link_id link) oid = [r]"
  shows "length (rewards (run_postbacks rq pick d ps)) = length (rewards d)
         \<and> nextId (run_postbacks rq pick d ps) = nextId d
         \<and> (\<exists>r'. rewards_for (run_postbacks rq pick d ps) (link_id link) oid = [r']
               \<and> reward_id r' = reward_id r
               \<and> status r' = (if ps = [] then status r else mapStatus (pb_status (snd (last ps))))
               \<and> postbackData r' = (if ps = [] then postbackData r else snd (last ps))
               \<and> commissionUsdt r'
                   = foldl (\<lambda>c p. or_num (pb_commissionUsdt (snd p)) c) (commissionUsdt r) ps
               \<and> (sorted_wrt (<) (map fst ps) \<and> sorted (map fst (statusHistory r))
                    \<and> (\<forall>k \<in> fst ` set (statusHistory r). \<forall>p \<in> set ps. k < fst p)
                  \<longrightarrow> statusHistory r'
                        = statusHistory r @ map (\<lambda>p. (fst p, mapStatus (pb_status (snd p)))) ps))"
  using assms
proof (induction ps arbitrary: d r)
  case Nil
  then show ?case by simp
next
  case (Cons p ps)
  obtain now b where p: "p = (now, b)" by (cases p)
  let ?d1 = "fst (snd (postback_handler rq pick now d b))"
  let ?st = "mapStatus (pb_status b)"
  let ?r1 = "merge_reward now b ?st r"
  from Cons.prems p have b: "pb_subId b = tok" "pb_orderId b = Some oid" by auto
  have l: "findUnique_link_subId d (pb_subId b) = Some (link, owner)"
    using Cons.prems(1) b by simp
  have s1: "rewards_for ?d1 (link_id link) oid = [?r1]"
    and len: "length (rewards ?d1) = length (rewards d)"
    and nx: "nextId ?d1 = nextId d"
    using step_single [OF l Cons.prems(4) b(2) Cons.prems(3), of rq pick now] by simp_all
  have l1: "findUnique_link_subId ?d1 tok = Some (link, owner)"
    using Cons.prems(1) by (simp add: handler_keeps_link)
  have m1: "\<forall>p \<in> set ps. pb_subId (snd p) = tok \<and> pb_orderId (snd p) = Some oid"
    using Cons.prems(2) by simp
  have run: "run_postbacks rq pick d (p # ps) = run_postbacks rq pick ?d1 ps"
    by (simp add: p)
  from Cons.IH [OF l1 m1 Cons.prems(3) s1]
  obtain r' where len': "length (rewards (run_postbacks rq pick ?d1 ps)) = length (rewards ?d1)"
    and nx': "nextId (run_postbacks rq pick ?d1 ps) = nextId ?d1"
    and r': "rewards_for (run_postbacks rq pick ?d1 ps) (link_id link) oid = [r']"
    and id': "reward_id r' = reward_id ?r1"
    and st': "status r' = (if ps = [] then status ?r1 else mapStatus (pb_status (snd (last ps))))"
    and pd': "postbackData r' = (if ps = [] then postbackData ?r1 else snd (last ps))"
    and cm': "commissionUsdt r'
                = foldl (\<lambda>c p. or_num (pb_commissionUsdt (snd p)) c) (commissionUsdt ?r1) ps"
    and h': "sorted_wrt (<) (map fst ps) \<and> sorted (map fst (statusHistory ?r1))
               \<and> (\<forall>k \<in> fst ` set (statusHistory ?r1). \<forall>p \<in> set ps. k < fst p)
             \<longrightarrow> statusHistory r'
                   = statusHistory ?r1 @ map (\<lambda>p. (fst p, mapStatus (pb_status (snd p)))) ps"
    by blast
  have st: "status r' = mapStatus (pb_status (snd (last (p # ps))))"
    using st' by (simp add: p)
  have pd: "postbackData r' = snd (last (p # ps))"
    using pd' by (simp add: p)
  have cm: "commissionUsdt r'
              = foldl (\<lambda>c p. or_num (pb_commissionUsdt (snd p)) c) (commissionUsdt r) (p # ps)"
    using cm' by (simp add: p)
  have hist: "statusHistory r'
                = statusHistory r @ map (\<lambda>p. (fst p, mapStatus (pb_status (snd p)))) (p # ps)"
    if inc: "sorted_wrt (<) (map fst (p # ps))"
      and so: "sorted (map fst (statusHistory r))"
      and k: "\<forall>k \<in> fst ` set (statusHistory r). \<forall>q \<in> set (p # ps). k < fst q"
  proof -
    have before: "\<forall>k \<in> fst ` set (statusHistory r). k < now"
      using k by (simp add: p)
    have h1: "statusHistory ?r1 = statusHistory r @ [(now, ?st)]"
      by (simp add: store_json_later [OF so before])
    have after: "\<forall>q \<in> set ps. now < fst q"
      using inc by (auto simp: p)
    have "sorted (map fst (statusHistory ?r1))"
      unfolding h1 using so before by (auto simp: sorted_append intro: less_imp_le)
    moreover have "\<forall>k \<in> fst ` set (statusHistory ?r1). \<forall>q \<in> set ps. k < fst q"
      unfolding h1 using k after by (auto simp: p)
    moreover have "sorted_wrt (<) (map fst ps)" using inc by simp
    ultimately have "statusHistory r'
        = statusHistory ?r1 @ map (\<lambda>p. (fst p, mapStatus (pb_status (snd p)))) ps"
      using h' by blast
    then show ?thesis unfolding h1 by (simp add: p)
  qed
  show ?case
    unfolding run using len len' nx nx' r' id' st pd cm hist by simp
qed

text \<open>
  C6. Postbacks that carry the same attribution token and the same non-empty order
  identifier are handled one after the other. If the link had at most one reward for that
  order before, it has at most one afterwards. If it had none and at least one postback is
  handled, exactly one row is added to the reward table in the whole run: the first
  postback creates it, with the identifier the store hands out then, and the later ones
  rewrite it, so that in the end it holds the status and the payload of the last postback
  and the last commission that was not zero. If it had one, no row is added and that
  reward is rewritten in the same way.
\<close>

theorem C6_one_reward_per_order:
  assumes l: "findUnique_link_subId d tok = Some (link, owner)"
    and m: "\<forall>p \<in> set ps. pb_subId (snd p) = tok \<and> pb_orderId (snd p) = Some oid"
    and o: "oid \<noteq> []"
  shows "(length (rewards_for d (link_id link) oid) \<le> 1
            \<longrightarrow> length (rewards_for (run_postbacks rq pick d ps) (link_id link) oid) \<le> 1)
         \<and> (rewards_for d (link_id link) oid = [] \<and> ps \<noteq> []
            \<longrightarrow> length (rewards (run_postbacks rq pick d ps)) = Suc (length (rewards d))
                \<and> (\<exists>r. rewards_for (run_postbacks rq pick d ps) (link_id link) oid = [r]
                       \<and> reward_id r = nextId d
                       \<and> status r = mapStatus (pb_status (snd (last ps)))
                       \<and> postbackData r = snd (last ps)
                       \<and> commissionUsdt r
                           = foldl (\<lambda>c p. or_num (pb_commissionUsdt (snd p)) c) 0 ps))
         \<and> (rewards_for d (link_id link) oid = [r0] \<and> ps \<noteq> []
            \<longrightarrow> length (rewards (run_postbacks rq pick d ps)) = length (rewards d)
                \<and> (\<exists>r. rewards_for (run_postbacks rq pick d ps) (link_id link) oid = [r]
                       \<and> reward_id r = reward_id r0
                       \<and> status r = mapStatus (pb_status (snd (last ps)))
                       \<and> postbackData r = snd (last ps)
                       \<and> commissionUsdt r
                           = foldl (\<lambda>c p. or_num (pb_commissionUsdt (snd p)) c)
                               (commissionUsdt r0) ps))"
proof -
  have first: "length (rewards (run_postbacks rq pick d ps)) = Suc (length (rewards d))
                \<and> (\<exists>r. rewards_for (run_postbacks rq pick d ps) (link_id link) oid = [r]
                       \<and> reward_id r = nextId d
                       \<and> status r = mapStatus (pb_status (snd (last ps)))
                       \<and> postbackData r = snd (last ps)
                       \<and> commissionUsdt r
                           = foldl (\<lambda>c p. or_num (pb_commissionUsdt (snd p)) c) 0 ps)"
    if e: "rewards_for d (link_id link) oid = []" and n: "ps \<noteq> []"
  proof -
    from n obtain p ps' where ps: "ps = p # ps'" by (cases ps) auto
    obtain now b where p: "p = (now, b)" by (cases p)
    let ?d1 = "fst (snd (postback_handler rq pick now d b))"
    let ?n = "new_reward (nextId d) now link b (mapStatus (pb_status b))"
    from m ps p have b: "pb_subId b = tok" "pb_orderId b = Some oid" by auto
    have lb: "findUnique_link_subId d (pb_subId b) = Some (link, owner)"
      using l b by simp
    have rw: "rewards ?d1 = rewards d @ [?n]"
      and rf: "rewards_for ?d1 (link_id link) oid = [?n]"
      using step_first [OF lb e b(2) o, of rq pick now] by simp_all
    have l1: "findUnique_link_subId ?d1 tok = Some (link, owner)"
      using l by (simp add: handler_keeps_link)
    have m1: "\<forall>p \<in> set ps'. pb_subId (snd p) = tok \<and> pb_orderId (snd p) = Some oid"
      using m ps by simp
    have run: "run_postbacks rq pick d ps = run_postbacks rq pick ?d1 ps'"
      by (simp add: ps p)
    from run_single [OF l1 m1 o rf, of rq pick]
    obtain r where len: "length (rewards (run_postbacks rq pick ?d1 ps')) = length (rewards ?d1)"
      and r: "rewards_for (run_postbacks rq pick ?d1 ps') (link_id link) oid = [r]"
      and i: "reward_id r = reward_id ?n"
      and st: "status r = (if ps' = [] then status ?n else mapStatus (pb_status (snd (last ps'))))"
      and pd: "postbackData r = (if ps' = [] then postbackData ?n else snd (last ps'))"
      and cm: "commissionUsdt r
                 = foldl (\<lambda>c p. or_num (pb_commissionUsdt (snd p)) c) (commissionUsdt ?n) ps'"
      by blast
    have "status r = mapStatus (pb_status (snd (last ps)))"
      using st by (simp add: ps p)
    moreover have "postbackData r = snd (last ps)"
      using pd by (simp add: ps p)
    moreover have "commissionUsdt r = foldl (\<lambda>c p. or_num (pb_commissionUsdt (snd p)) c) 0 ps"
      using cm by (simp add: ps p)
    moreover have "reward_id r = nextId d" using i by simp
    moreover have "length (rewards (run_postbacks rq pick d ps)) = Suc (length (rewards d))"
      unfolding run using len by (simp add: rw)
    ultimately show ?thesis unfolding run using r by simp
  qed
  have later: "length (rewards (run_postbacks rq pick d ps)) = length (rewards d)
                \<and> (\<exists>r. rewards_for (run_postbacks rq pick d ps) (link_id link) oid = [r]
                       \<and> reward_id r = reward_id r1
                       \<and> status r = mapStatus (pb_status (snd (last ps)))
                       \<and> postbackData r = snd (last ps)
                       \<and> commissionUsdt r
                           = foldl (\<lambda>c p. or_num (pb_commissionUsdt (snd p)) c)
                               (commissionUsdt r1) ps)"
    if s: "rewards_for d (link_id link) oid = [r1]" and n: "ps \<noteq> []" for r1
    using run_single [OF l m o s, of rq pick] n by auto
  have atmost: "length (rewards_for (run_postbacks rq pick d ps) (link_id link) oid) \<le> 1"
    if le: "length (rewards_for d (link_id link) oid) \<le> 1"
  proof (cases "ps = []")
    case True
    with le show ?thesis by simp
  next
    case False
    show ?thesis
    proof (cases "rewards_for d (link_id link) oid")
      case Nil
      from first [OF Nil False] show ?thesis by auto
    next
      case (Cons r1 rest)
      with le have "rewards_for d (link_id link) oid = [r1]" by simp
      from later [OF this False] show ?thesis by auto
    qed
  qed
  from first later [of r0] atmost show ?thesis by blast
qed

text \<open>
  C5 (amended). Postbacks for the same link and non-empty order identifier are handled one
  after the other, starting with no reward for the order. There is one reward for the order
  afterwards, and its status is the canonical mapping of the last vendor status. If the
  clock readings of the ingestions are strictly increasing, its status history has one
  entry per postback, in application order.
\<close>

theorem C5_status_history:
  assumes l: "findUnique_link_subId d tok = Some (link, owner)"
    and m: "\<forall>p \<in> set ps. pb_subId (snd p) = tok \<and> pb_orderId (snd p) = Some oid"
    and o: "oid \<noteq> []"
    and e: "rewards_for d (link_id link) oid = []"
    and n: "ps \<noteq> []"
  shows "\<exists>r. rewards_for (run_postbacks rq pick d ps) (link_id link) oid = [r]
           \<and> findFirst_reward pick (run_postbacks rq pick d ps) (link_id link) (Some oid) = Some r
           \<and> status r = mapStatus (pb_status (snd (last ps)))
           \<and> (sorted_wrt (<) (map fst ps)
                \<longrightarrow> statusHistory r = map (\<lambda>p. (fst p, mapStatus (pb_status (snd p)))) ps)"
proof -
  from n obtain p ps' where ps: "ps = p # ps'" by (cases ps) auto
  obtain now b where p: "p = (now, b)" by (cases p)
  let ?d1 = "fst (snd (postback_handler rq pick now d b))"
  let ?n = "new_reward (nextId d) now link b (mapStatus (pb_status b))"
  from m ps p have b: "pb_subId b = tok" "pb_orderId b = Some oid" by auto
  have lb: "findUnique_link_subId d (pb_subId b) = Some (link, owner)"
    using l b by simp
  have rf: "rewards_for ?d1 (link_id link) oid = [?n]"
    using step_first(2) [OF lb e b(2) o, of rq pick now] .
  have l1: "findUnique_link_subId ?d1 tok = Some (link, owner)"
    using l by (simp add: handler_keeps_link)
  have m1: "\<forall>p \<in> set ps'. pb_subId (snd p) = tok \<and> pb_orderId (snd p) = Some oid"
    using m ps by simp
  have run: "run_postbacks rq pick d ps = run_postbacks rq pick ?d1 ps'"
    by (simp add: ps p)
  from run_single [OF l1 m1 o rf, of rq pick]
  obtain r where r: "rewards_for (run_postbacks rq pick ?d1 ps') (link_id link) oid = [r]"
    and st: "status r = (if ps' = [] then status ?n else mapStatus (pb_status (snd (last ps'))))"
    and h: "sorted_wrt (<) (map fst ps') \<and> sorted (map fst (statusHistory ?n))
              \<and> (\<forall>k \<in> fst ` set (statusHistory ?n). \<forall>p \<in> set ps'. k < fst p)
            \<longrightarrow> statusHistory r
                  = statusHistory ?n @ map (\<lambda>p. (fst p, mapStatus (pb_status (snd p)))) ps'"
    by blast
  have f: "findFirst_reward pick (run_postbacks rq pick ?d1 ps') (link_id link) (Some oid) = Some r"
    using r by (simp add: findFirst_single rewards_for_def)
  have st2: "status r = mapStatus (pb_status (snd (last ps)))"
    using st by (simp add: ps p)
  have h2: "statusHistory r = map (\<lambda>p. (fst p, mapStatus (pb_status (snd p)))) ps"
    if inc: "sorted_wrt (<) (map fst ps)"
  proof -
    from inc have "sorted_wrt (<) (map fst ps')" and "\<forall>q \<in> set ps'. now < fst q"
      by (auto simp: ps p)
    then have "sorted_wrt (<) (map fst ps') \<and> sorted (map fst (statusHistory ?n))
              \<and> (\<forall>k \<in> fst ` set (statusHistory ?n). \<forall>p \<in> set ps'. k < fst p)"
      by simp
    with h show ?thesis by (simp add: ps p)
  qed
  show ?thesis unfolding run using r f st2 h2 by simp
qed

lemma example_run_matches:
  "\<forall>p \<in> set example_run. pb_subId (snd p) = ''agent_aaaa0000_k3j9_lq9x'' \<and> pb_orderId (snd p) = Some ''O1''"
  by (simp add: example_run_def example_postback_def)

lemma example_no_reward: "rewards_for example_db (link_id example_link) ''O1'' = []"
  by (simp add: rewards_for_def example_db_def)

lemma example_db1_eq:
  "example_db1 = example_db\<lparr>rewards :=
      [new_reward 3 1000 example_link (example_postback (Some ''O1'') (Some 10) (Some ''approved''))
         COMMISSIONED], nextId := 4\<rparr>"
  by (simp add: example_db1_def example_defs handler_defs Let_def)

lemma example_db1_link:
  "findUnique_link_subId example_db1 ''agent_aaaa0000_k3j9_lq9x'' = Some (example_link, example_agent)"
  by (simp add: example_db1_eq example_defs findUnique_link_subId_def)

lemma example_db1_reward:
  "rewards_for example_db1 (link_id example_link) ''O1''
     = [new_reward 3 1000 example_link (example_postback (Some ''O1'') (Some 10) (Some ''approved''))
          COMMISSIONED]"
  by (simp add: example_db1_eq rewards_for_def reward_matches_def example_defs)

theorem C6_one_reward_per_order_witness:
  "rewards_for example_db 2 ''O1'' = []
   \<and> length (rewards (run_postbacks payout_ok oldest_row example_db example_run)) = 1
   \<and> (\<exists>r. rewards_for (run_postbacks payout_ok oldest_row example_db example_run) 2 ''O1'' = [r]
          \<and> reward_id r = 3 \<and> status r = PAID \<and> commissionUsdt r = 10
          \<and> postbackData r = example_postback (Some ''O1'') None (Some ''success''))
   \<and> length (rewards example_db1) = 1
   \<and> length (rewards (run_postbacks payout_ok oldest_row example_db1
        [(2000, example_postback (Some ''O1'') None (Some ''cancelled''))])) = 1
   \<and> (\<exists>r. rewards_for (run_postbacks payout_ok oldest_row example_db1
              [(2000, example_postback (Some ''O1'') None (Some ''cancelled''))]) 2 ''O1'' = [r]
          \<and> reward_id r = 3 \<and> status r = CANCELLED \<and> commissionUsdt r = 10)"
proof -
  let ?r0 = "new_reward 3 1000 example_link
               (example_postback (Some ''O1'') (Some 10) (Some ''approved'')) COMMISSIONED"
  let ?late = "[(2000 :: nat, example_postback (Some ''O1'') None (Some ''cancelled''))]"
  have o: "''O1'' \<noteq> []" by simp
  have ne: "example_run \<noteq> []" "?late \<noteq> []" by (simp_all add: example_run_def)
  have i: "link_id example_link = 2" "nextId example_db = 3" "rewards example_db = []"
    by (simp_all add: example_link_def example_db_def)
  have v: "snd (last example_run) = example_postback (Some ''O1'') None (Some ''success'')"
    "foldl (\<lambda>c p. or_num (pb_commissionUsdt (snd p)) c) 0 example_run = 10"
    by (simp_all add: example_run_def example_postback_def or_num_def)
  have lm: "\<forall>p \<in> set ?late. pb_subId (snd p) = ''agent_aaaa0000_k3j9_lq9x''
              \<and> pb_orderId (snd p) = Some ''O1''"
    by (simp add: example_postback_def)
  from C6_one_reward_per_order [OF example_link_found example_run_matches o,
      of payout_ok oldest_row ?r0]
    example_no_reward ne
  have a: "length (rewards (run_postbacks payout_ok oldest_row example_db example_run)) = 1
        \<and> (\<exists>r. rewards_for (run_postbacks payout_ok oldest_row example_db example_run) 2 ''O1'' = [r]
              \<and> reward_id r = 3 \<and> status r = PAID \<and> commissionUsdt r = 10
              \<and> postbackData r = example_postback (Some ''O1'') None (Some ''success''))"
    unfolding i v by (auto simp: example_postback_def mapStatus_examples)
  from C6_one_reward_per_order [OF example_db1_link lm o, of payout_ok oldest_row ?r0]
    example_db1_reward ne
  have b: "length (rewards (run_postbacks payout_ok oldest_row example_db1 ?late))
            = length (rewards example_db1)
        \<and> (\<exists>r. rewards_for (run_postbacks payout_ok oldest_row example_db1 ?late) 2 ''O1'' = [r]
              \<and> reward_id r = 3 \<and> status r = CANCELLED \<and> commissionUsdt r = 10)"
    unfolding i by (auto simp: example_postback_def mapStatus_examples or_num_def)
  have c: "length (rewards example_db1) = 1"
    by (simp add: example_db1_eq)
  from a b c example_no_reward show ?thesis unfolding i by simp
qed

theorem C5_status_history_witness:
  "\<exists>r. findFirst_reward oldest_row (run_postbacks payout_ok oldest_row example_db example_run)
          2 (Some ''O1'') = Some r
       \<and> status r = PAID
       \<and> statusHistory r = [(1000, COMMISSIONED), (2000, PAID)]"
proof -
  have o: "''O1'' \<noteq> []" by simp
  have ne: "example_run \<noteq> []" by (simp add: example_run_def)
  have i: "link_id example_link = 2"
    by (simp add: example_link_def example_db_def)
  have inc: "sorted_wrt (<) (map fst example_run)" by (simp add: example_run_def)
  from C5_status_history [OF example_link_found example_run_matches o example_no_reward ne,
      of payout_ok oldest_row] inc
  show ?thesis by (auto simp: i example_run_def example_postback_def mapStatus_examples)
qed

text \<open>
  Two postbacks for one order ingested at the same clock reading leave a single history
  entry: the second write reuses the key of the first.
\<close>

theorem C5_same_instant_counterexample:
  "length example_same_instant = 2
   \<and> map statusHistory (rewards (run_postbacks payout_ok oldest_row example_db example_same_instant))
       = [[(1000, PAID)]]"
  by (simp add: example_same_instant_def example_defs handler_defs Let_def)

text \<open>
  C7. When a postback finds an existing reward, no row is added, and the rewritten reward
  holds the inbound commission if that is present and not zero, and the previously stored
  commission otherwise. When that reward is the only one the lookup matches, the lookup
  on the store afterwards returns it with this commission.
\<close>

theorem C7_commission_kept:
  assumes l: "findUnique_link_subId d (pb_subId b) = Some (link, owner)"
    and f: "findFirst_reward pick d (link_id link) (or_undefined (pb_orderId b)) = Some r"
  shows "length (rewards (fst (snd (postback_handler rq pick now d b)))) = length (rewards d)
         \<and> (\<exists>r' \<in> set (rewards (fst (snd (postback_handler rq pick now d b)))).
               reward_id r' = reward_id r
               \<and> commissionUsdt r' =
                   (case pb_commissionUsdt b of
                      None \<Rightarrow> commissionUsdt r
                    | Some c \<Rightarrow> if c = 0 then commissionUsdt r else c))
         \<and> (filter (reward_matches (link_id link) (or_undefined (pb_orderId b))) (rewards d) = [r]
              \<longrightarrow> (\<exists>r'. findFirst_reward pick (fst (snd (postback_handler rq pick now d b)))
                           (link_id link) (or_undefined (pb_orderId b)) = Some r'
                        \<and> reward_id r' = reward_id r
                        \<and> commissionUsdt r' =
                            (case pb_commissionUsdt b of
                               None \<Rightarrow> commissionUsdt r
                             | Some c \<Rightarrow> if c = 0 then commissionUsdt r else c)))"
proof -
  let ?d1 = "fst (snd (postback_handler rq pick now d b))"
  let ?g = "\<lambda>x. if reward_id x = reward_id r
                 then merge_reward now b (mapStatus (pb_status b)) x else x"
  let ?m = "merge_reward now b (mapStatus (pb_status b)) r"
  have rw: "rewards ?d1 = map ?g (rewards d)"
    using step_found(1) [OF l f] .
  have cm: "commissionUsdt ?m =
      (case pb_commissionUsdt b of
         None \<Rightarrow> commissionUsdt r
       | Some c \<Rightarrow> if c = 0 then commissionUsdt r else c)"
    by (simp add: or_num_def split: option.splits)
  have "r \<in> set (rewards d)" using f by (rule findFirst_in)
  then have "?g r \<in> set (map ?g (rewards d))" by simp
  then have mem: "?m \<in> set (rewards ?d1)" by (simp add: rw)
  have one: "\<exists>r'. findFirst_reward pick ?d1 (link_id link) (or_undefined (pb_orderId b)) = Some r'
                        \<and> reward_id r' = reward_id r
                        \<and> commissionUsdt r' =
                            (case pb_commissionUsdt b of
                               None \<Rightarrow> commissionUsdt r
                             | Some c \<Rightarrow> if c = 0 then commissionUsdt r else c)"
    if u: "filter (reward_matches (link_id link) (or_undefined (pb_orderId b))) (rewards d) = [r]"
  proof -
    have "filter (reward_matches (link_id link) (or_undefined (pb_orderId b))) (rewards ?d1)
            = map ?g (filter (reward_matches (link_id link) (or_undefined (pb_orderId b))) (rewards d))"
      by (simp add: rw filter_map comp_def)
    then have "filter (reward_matches (link_id link) (or_undefined (pb_orderId b))) (rewards ?d1) = [?m]"
      by (simp add: u)
    then have "findFirst_reward pick ?d1 (link_id link) (or_undefined (pb_orderId b)) = Some ?m"
      by (rule findFirst_single)
    with cm show ?thesis by simp
  qed
  have len: "length (rewards ?d1) = length (rewards d)" by (simp add: rw)
  from mem cm have ex: "\<exists>r' \<in> set (rewards ?d1). reward_id r' = reward_id r
               \<and> commissionUsdt r' =
                   (case pb_commissionUsdt b of
                      None \<Rightarrow> commissionUsdt r
                    | Some c \<Rightarrow> if c = 0 then commissionUsdt r else c)"
    by (intro bexI [of _ ?m]) simp_all
  from len ex one show ?thesis by blast
qed

theorem C7_commission_kept_witness:
  "findFirst_reward oldest_row example_db1 2 (Some ''O1'') \<noteq> None
   \<and> map commissionUsdt (rewards example_db1) = [10]
   \<and> (\<exists>r'. findFirst_reward oldest_row
              (fst (snd (postback_handler payout_ok oldest_row 2000 example_db1
                 (example_postback (Some ''O1'') (Some 0) (Some ''success'')))))
              2 (Some ''O1'') = Some r'
          \<and> commissionUsdt r' = 10)"
proof -
  let ?b = "example_postback (Some ''O1'') (Some 0) (Some ''success'')"
  let ?r0 = "new_reward 3 1000 example_link
               (example_postback (Some ''O1'') (Some 10) (Some ''approved'')) COMMISSIONED"
  have l: "findUnique_link_subId example_db1 (pb_subId ?b) = Some (example_link, example_agent)"
    using example_db1_link by (simp add: example_postback_def)
  have i: "link_id example_link = 2" "or_undefined (pb_orderId ?b) = Some ''O1''"
    by (simp_all add: example_defs or_undefined_def)
  have u: "filter (reward_matches (link_id example_link) (or_undefined (pb_orderId ?b)))
             (rewards example_db1) = [?r0]"
    using example_db1_reward unfolding i by (simp add: rewards_for_def)
  have f: "findFirst_reward oldest_row example_db1 (link_id example_link)
             (or_undefined (pb_orderId ?b)) = Some ?r0"
    using u by (rule findFirst_single)
  from C7_commission_kept [OF l f, of payout_ok 2000] u
  obtain r' where r: "findFirst_reward oldest_row
        (fst (snd (postback_handler payout_ok oldest_row 2000 example_db1 ?b)))
        (link_id example_link) (or_undefined (pb_orderId ?b)) = Some r'"
    and c: "commissionUsdt r' =
              (case pb_commissionUsdt ?b of
                 None \<Rightarrow> commissionUsdt ?r0
               | Some c \<Rightarrow> if c = 0 then commissionUsdt ?r0 else c)"
    by blast
  have c10: "commissionUsdt r' = 10"
    using c by (simp add: example_postback_def or_num_def)
  have a: "findFirst_reward oldest_row example_db1 2 (Some ''O1'') \<noteq> None"
    using f unfolding i by simp
  have b: "map commissionUsdt (rewards example_db1) = [10]"
    by (simp add: example_db1_eq example_postback_def or_num_def)
  from r c10 a b show ?thesis unfolding i by blast
qed

text \<open>
  C2. A link holds one reward, for order \<open>O1\<close>. A postback without order identifier
  creates no row: whichever row the store returns first, the lookup without order filter
  finds the reward of \<open>O1\<close>, and the postback turns it to \<open>CANCELLED\<close>. With the status
  \<open>paid\<close> such a postback requests the payout of the reward of \<open>O1\<close>.
\<close>

theorem C2_orderless_hits_other_order:
  "pb_orderId (example_postback None None (Some ''cancelled'')) = None
   \<and> map (\<lambda>r. (reward_id r, orderId r, status r)) (rewards example_db1)
      = [(3, Some ''O1'', COMMISSIONED)]
   \<and> map (\<lambda>r. (reward_id r, orderId r, status r))
        (rewards (fst (snd (postback_handler payout_ok pick 2000 example_db1
           (example_postback None None (Some ''cancelled''))))))
      = [(3, Some ''O1'', CANCELLED)]
   \<and> snd (snd (postback_handler payout_ok pick 2000 example_db1
           (example_postback None None (Some ''paid''))))
      = [\<lparr>wr_walletAddress = ''0xaaaa000000000000000000000000000000000001'',
          wr_amountUsdt = 10, wr_rewardId = 3\<rparr>]"
  by (simp add: example_db1_eq example_defs handler_defs Let_def)

text \<open>
  C8. Vendor status strings that agree after lower-casing map to the same canonical status;
  a missing status, and every string outside the nine known words, maps to \<open>NOT_TRACKED\<close>;
  \<open>approved\<close> maps to \<open>COMMISSIONED\<close>, \<open>success\<close> to \<open>PAID\<close>, \<open>reversed\<close> and \<open>rejected\<close> to
  \<open>CANCELLED\<close>. Whatever the status field holds, a postback for a known link is answered
  with a 200 success that reports the mapped status, unless the status maps to \<open>PAID\<close> and
  the payout call throws. When the status does not map to \<open>PAID\<close>, the response is that
  success, the reward is written and no payout call is made.
\<close>

theorem C8_status_mapping:
  "(toLowerCase s = toLowerCase s' \<longrightarrow> mapStatus (Some s) = mapStatus (Some s'))
   \<and> mapStatus None = NOT_TRACKED
   \<and> (toLowerCase s \<notin> {''pending'', ''before_pending'', ''commissioned'', ''approved'', ''paid'',
                           ''success'', ''cancelled'', ''reversed'', ''rejected''}
        \<longrightarrow> mapStatus (Some s) = NOT_TRACKED)
   \<and> mapStatus (Some ''approved'') = COMMISSIONED
   \<and> mapStatus (Some ''success'') = PAID
   \<and> mapStatus (Some ''reversed'') = CANCELLED
   \<and> mapStatus (Some ''rejected'') = CANCELLED
   \<and> (findUnique_link_subId d (pb_subId b) = Some (link, owner)
        \<longrightarrow> (\<exists>i e. fst (postback_handler rq pick now d b)
                      = Json 200 (Success (PostbackData i (mapStatus (pb_status b))
                          (walletAddress owner) e)))
            \<or> (mapStatus (pb_status b) = PAID
                \<and> (\<exists>req message. rq req = Thrown message
                      \<and> fst (postback_handler rq pick now d b) = Json 400 (Failure message))))
   \<and> (findUnique_link_subId d (pb_subId b) = Some (link, owner) \<and> mapStatus (pb_status b) \<noteq> PAID
        \<longrightarrow> (\<exists>i. postback_handler rq pick now d b
                    = (Json 200 (Success (PostbackData i (mapStatus (pb_status b))
                         (walletAddress owner) None)),
                       snd (upsert_reward pick now d link b (mapStatus (pb_status b))), [])))"
proof -
  have h: "(\<exists>i e. fst (postback_handler rq pick now d b)
                      = Json 200 (Success (PostbackData i (mapStatus (pb_status b))
                          (walletAddress owner) e)))
            \<or> (mapStatus (pb_status b) = PAID
                \<and> (\<exists>req message. rq req = Thrown message
                      \<and> fst (postback_handler rq pick now d b) = Json 400 (Failure message)))"
    if l: "findUnique_link_subId d (pb_subId b) = Some (link, owner)"
  proof -
    obtain reward d' where u: "upsert_reward pick now d link b (mapStatus (pb_status b)) = (reward, d')"
      by (cases "upsert_reward pick now d link b (mapStatus (pb_status b))")
    from handler_found [OF l u, of rq] show ?thesis
      by (auto split: if_splits withdrawal_outcome.splits)
  qed
  have q: "\<exists>i. postback_handler rq pick now d b
                    = (Json 200 (Success (PostbackData i (mapStatus (pb_status b))
                         (walletAddress owner) None)),
                       snd (upsert_reward pick now d link b (mapStatus (pb_status b))), [])"
    if l: "findUnique_link_subId d (pb_subId b) = Some (link, owner)"
      and np: "mapStatus (pb_status b) \<noteq> PAID"
  proof -
    obtain reward d' where u: "upsert_reward pick now d link b (mapStatus (pb_status b)) = (reward, d')"
      by (cases "upsert_reward pick now d link b (mapStatus (pb_status b))")
    from handler_found [OF l u, of rq] np u show ?thesis by auto
  qed
  have c: "mapStatus (Some s) = mapStatus (Some s')" if "toLowerCase s = toLowerCase s'"
    using that by (simp add: mapStatus_def)
  have n: "mapStatus (Some s) = NOT_TRACKED"
    if "toLowerCase s \<notin> {''pending'', ''before_pending'', ''commissioned'', ''approved'', ''paid'',
                           ''success'', ''cancelled'', ''reversed'', ''rejected''}"
    using that by (simp add: mapStatus_def)
  have v: "mapStatus None = NOT_TRACKED" "mapStatus (Some ''approved'') = COMMISSIONED"
    "mapStatus (Some ''success'') = PAID" "mapStatus (Some ''reversed'') = CANCELLED"
    "mapStatus (Some ''rejected'') = CANCELLED"
    by (simp_all add: mapStatus_def toLowerCase_def toLowerCase_char_def)
  show ?thesis using h q c n v by blast
qed

theorem C8_status_mapping_witness:
  "toLowerCase ''APPROVED'' = toLowerCase ''Approved''
   \<and> mapStatus (Some ''APPROVED'') = mapStatus (Some ''Approved'')
   \<and> mapStatus (Some ''APPROVED'') = COMMISSIONED
   \<and> mapStatus (Some ''shipped'') = NOT_TRACKED
   \<and> (\<exists>i. fst (postback_handler payout_throws oldest_row 1000 example_db
                  (example_postback (Some ''O1'') (Some 10) (Some ''shipped'')))
              = Json 200 (Success (PostbackData i NOT_TRACKED
                  ''0xaaaa000000000000000000000000000000000001'' None)))"
proof -
  let ?b = "example_postback (Some ''O1'') (Some 10) (Some ''shipped'')"
  have l: "findUnique_link_subId example_db (pb_subId ?b) = Some (example_link, example_agent)"
    by (simp add: example_defs findUnique_link_subId_def)
  have t: "toLowerCase ''APPROVED'' = ''approved''" "toLowerCase ''Approved'' = ''approved''"
    "toLowerCase ''shipped'' = ''shipped''" "toLowerCase ''approved'' = ''approved''"
    by (simp_all add: toLowerCase_def toLowerCase_char_def)
  have w: "walletAddress example_agent = ''0xaaaa000000000000000000000000000000000001''"
    "pb_status ?b = Some ''shipped''"
    by (simp_all add: example_defs)
  from C8_status_mapping [of "''shipped''" "''shipped''" example_db ?b example_link example_agent
      payout_throws oldest_row 1000] t
  have 3: "mapStatus (Some ''shipped'') = NOT_TRACKED" by simp
  from C8_status_mapping [of "''APPROVED''" "''Approved''" example_db ?b example_link example_agent
      payout_throws oldest_row 1000] l t 3
  have 1: "mapStatus (Some ''APPROVED'') = mapStatus (Some ''Approved'')"
    and 2: "\<exists>i. fst (postback_handler payout_throws oldest_row 1000 example_db ?b)
              = Json 200 (Success (PostbackData i NOT_TRACKED
                  (walletAddress example_agent) None))"
    by (auto simp: w)
  from C8_status_mapping [of "''APPROVED''" "''approved''" example_db ?b example_link example_agent
      payout_throws oldest_row 1000] t
  have 4: "mapStatus (Some ''APPROVED'') = COMMISSIONED" by simp
  from 1 2 3 4 t show ?thesis by (simp add: w)
qed

subsection \<open>Minting short codes\<close>

text \<open>The equation of the minting loop is unfolded by hand, one turn at a time.\<close>

declare mintShortCode.simps [simp del]

lemma mint_links_cong:
  "links d' = links d \<Longrightarrow> mintShortCode draw d' a = mintShortCode draw d a"
proof (induction draw d a rule: mintShortCode.induct)
  case (1 draw d attempts)
  have f: "findUnique_link_shortCode d' (draw attempts) = findUnique_link_shortCode d (draw attempts)"
    using "1.prems" by (simp add: findUnique_link_shortCode_def)
  show ?case
  proof (cases "findUnique_link_shortCode d (draw attempts)")
    case None
    then show ?thesis using f
      by (simp add: mintShortCode.simps [of draw d attempts] mintShortCode.simps [of draw d' attempts])
  next
    case (Some existing)
    show ?thesis
    proof (cases "Suc attempts > 10")
      case True
      then show ?thesis using f Some
        by (simp add: mintShortCode.simps [of draw d attempts] mintShortCode.simps [of draw d' attempts])
    next
      case False
      from "1.IH" [OF Some False "1.prems"] f Some False show ?thesis
        by (simp add: mintShortCode.simps [of draw d attempts] mintShortCode.simps [of draw d' attempts])
    qed
  qed
qed


lemma mint_success:
  "mintShortCode draw d a = Inr (c, n) \<Longrightarrow> a \<le> 10 \<Longrightarrow>
     a \<le> n \<and> n \<le> 10 \<and> c = draw n \<and> findUnique_link_shortCode d c = None
     \<and> (\<forall>i. a \<le> i \<and> i < n \<longrightarrow> findUnique_link_shortCode d (draw i) \<noteq> None)"
proof (induction draw d a rule: mintShortCode.induct)
  case (1 draw d attempts)
  show ?case
  proof (cases "findUnique_link_shortCode d (draw attempts)")
    case None
    with "1.prems" show ?thesis
      by (auto simp: mintShortCode.simps [of draw d attempts])
  next
    case (Some existing)
    with "1.prems" have ns: "\<not> Suc attempts > 10"
      and rec: "mintShortCode draw d (Suc attempts) = Inr (c, n)"
      by (auto simp: mintShortCode.simps [of draw d attempts] split: if_splits)
    from ns have le: "Suc attempts \<le> 10" by simp
    from "1.IH" [OF Some ns rec le]
    have ih: "Suc attempts \<le> n" "n \<le> 10" "c = draw n" "findUnique_link_shortCode d c = None"
      "\<forall>i. Suc attempts \<le> i \<and> i < n \<longrightarrow> findUnique_link_shortCode d (draw i) \<noteq> None"
      by blast+
    have "findUnique_link_shortCode d (draw i) \<noteq> None" if "attempts \<le> i" "i < n" for i
    proof (cases "i = attempts")
      case True
      with Some show ?thesis by simp
    next
      case False
      with that have "Suc attempts \<le> i" by simp
      with ih(5) that show ?thesis by blast
    qed
    with ih show ?thesis by auto
  qed
qed

lemma mint_exhausted:
  "a \<le> 10 \<Longrightarrow> \<forall>i. a \<le> i \<and> i \<le> 10 \<longrightarrow> findUnique_link_shortCode d (draw i) \<noteq> None \<Longrightarrow>
     mintShortCode draw d a = Inl ''Failed to generate unique short code''"
proof (induction draw d a rule: mintShortCode.induct)
  case (1 draw d attempts)
  from "1.prems" obtain existing where
    ex: "findUnique_link_shortCode d (draw attempts) = Some existing"
    by (cases "findUnique_link_shortCode d (draw attempts)") auto
  show ?case
  proof (cases "Suc attempts > 10")
    case True
    with ex show ?thesis by (simp add: mintShortCode.simps [of draw d attempts])
  next
    case False
    then have le: "Suc attempts \<le> 10" by simp
    have "\<forall>i. Suc attempts \<le> i \<and> i \<le> 10 \<longrightarrow> findUnique_link_shortCode d (draw i) \<noteq> None"
      using "1.prems"(2) by auto
    from "1.IH" [OF ex False le this] ex False show ?thesis
      by (simp add: mintShortCode.simps [of draw d attempts])
  qed
qed

lemma mint_failure:
  "mintShortCode draw d a = Inl m \<Longrightarrow> a \<le> 10 \<Longrightarrow>
     m = ''Failed to generate unique short code''
     \<and> (\<forall>i. a \<le> i \<and> i \<le> 10 \<longrightarrow> findUnique_link_shortCode d (draw i) \<noteq> None)"
proof (induction draw d a rule: mintShortCode.induct)
  case (1 draw d attempts)
  from "1.prems" obtain existing where
    ex: "findUnique_link_shortCode d (draw attempts) = Some existing"
    by (cases "findUnique_link_shortCode d (draw attempts)")
       (auto simp: mintShortCode.simps [of draw d attempts])
  show ?case
  proof (cases "Suc attempts > 10")
    case True
    with "1.prems" have a: "attempts = 10" by simp
    from "1.prems" ex True have "m = ''Failed to generate unique short code''"
      by (simp add: mintShortCode.simps [of draw d attempts])
    moreover have "findUnique_link_shortCode d (draw i) \<noteq> None" if "attempts \<le> i" "i \<le> 10" for i
      using that a ex by simp
    ultimately show ?thesis by blast
  next
    case False
    then have le: "Suc attempts \<le> 10" by simp
    from "1.prems" ex False have rec: "mintShortCode draw d (Suc attempts) = Inl m"
      by (simp add: mintShortCode.simps [of draw d attempts])
    from "1.IH" [OF ex False rec le]
    have ih: "m = ''Failed to generate unique short code''"
      "\<forall>i. Suc attempts \<le> i \<and> i \<le> 10 \<longrightarrow> findUnique_link_shortCode d (draw i) \<noteq> None"
      by simp_all
    have "findUnique_link_shortCode d (draw i) \<noteq> None" if "attempts \<le> i" "i \<le> 10" for i
    proof (cases "i = attempts")
      case True
      with ex show ?thesis by simp
    next
      case False
      with that have "Suc attempts \<le> i" by simp
      with ih(2) that show ?thesis by blast
    qed
    with ih(1) show ?thesis by blast
  qed
qed

lemma find_or_create_links [simp]:
  "links (snd (find_or_create_agent d w)) = links d"
  by (simp add: find_or_create_agent_def split: option.splits)

text \<open>The request gets as far as minting, and every draw collides.\<close>

lemma links_handler_exhausted:
  assumes v: "walletAddressSchema (gl_walletAddress b)" "gl_merchantId b \<noteq> []"
    and m: "getMerchant env (gl_merchantId b) = Some merchant" "cashbackRates merchant \<noteq> []"
    and t: "(case generateAffiliateLink env merchant
                   (generateSubId (toLowerCase (gl_walletAddress b)) (random env) (timestamp env)) of
               Inr u \<Rightarrow> Inr u
             | Inl e \<Rightarrow> generateTrackingLink env (m_id merchant)
                   (generateSubId (toLowerCase (gl_walletAddress b)) (random env) (timestamp env)))
            = Inr tracking_url"
    and c: "\<forall>i \<le> 10. findUnique_link_shortCode d (generateShortCode env i) \<noteq> None"
  shows "links_handler env d b
           = (Json 400 (Failure ''Failed to generate unique short code''),
              snd (find_or_create_agent d (toLowerCase (gl_walletAddress b))))"
proof -
  obtain ag d1 where fc: "find_or_create_agent d (toLowerCase (gl_walletAddress b)) = (ag, d1)"
    by (cases "find_or_create_agent d (toLowerCase (gl_walletAddress b))")
  have "links d1 = links d"
    using find_or_create_links [of d "toLowerCase (gl_walletAddress b)"] fc by simp
  moreover have "mintShortCode (generateShortCode env) d 0 = Inl ''Failed to generate unique short code''"
    using c by (intro mint_exhausted) auto
  ultimately have "mintShortCode (generateShortCode env) d1 0 = Inl ''Failed to generate unique short code''"
    by (simp add: mint_links_cong [of d1 d])
  then show ?thesis
    using v m t by (simp add: links_handler_def Let_def fc)
qed

text \<open>
  C4 (amended). The minting loop returns a free code after at most 10 retries: the code is
  the draw made after \<open>n \<le> 10\<close> collisions, and all earlier draws collided. It throws exactly
  when the first 11 draws all collide. In that case a request that got as far as minting is
  answered with status 400 and the message of the thrown error, and no link is stored.
\<close>

theorem C4_short_code_retries:
  "(mintShortCode draw d 0 = Inr (c, n)
      \<longrightarrow> n \<le> 10 \<and> c = draw n \<and> findUnique_link_shortCode d c = None
          \<and> (\<forall>i < n. findUnique_link_shortCode d (draw i) \<noteq> None))
   \<and> ((\<exists>m. mintShortCode draw d 0 = Inl m)
        = (\<forall>i \<le> 10. findUnique_link_shortCode d (draw i) \<noteq> None))
   \<and> (walletAddressSchema (gl_walletAddress b) \<and> gl_merchantId b \<noteq> []
        \<and> getMerchant env (gl_merchantId b) = Some merchant \<and> cashbackRates merchant \<noteq> []
        \<and> (case generateAffiliateLink env merchant
                   (generateSubId (toLowerCase (gl_walletAddress b)) (random env) (timestamp env)) of
               Inr u \<Rightarrow> Inr u
             | Inl e \<Rightarrow> generateTrackingLink env (m_id merchant)
                   (generateSubId (toLowerCase (gl_walletAddress b)) (random env) (timestamp env)))
            = Inr tracking_url
        \<and> (\<forall>i \<le> 10. findUnique_link_shortCode d (generateShortCode env i) \<noteq> None)
      \<longrightarrow> links_handler env d b
            = (Json 400 (Failure ''Failed to generate unique short code''),
               snd (find_or_create_agent d (toLowerCase (gl_walletAddress b)))))"
proof (intro conjI impI)
  assume s: "mintShortCode draw d 0 = Inr (c, n)"
  from mint_success [OF s] show "n \<le> 10" "c = draw n" "findUnique_link_shortCode d c = None"
    "\<forall>i < n. findUnique_link_shortCode d (draw i) \<noteq> None"
    by auto
next
  show "(\<exists>m. mintShortCode draw d 0 = Inl m)
        = (\<forall>i \<le> 10. findUnique_link_shortCode d (draw i) \<noteq> None)"
  proof
    assume "\<exists>m. mintShortCode draw d 0 = Inl m"
    then obtain m where "mintShortCode draw d 0 = Inl m" by blast
    from mint_failure [OF this] show "\<forall>i \<le> 10. findUnique_link_shortCode d (draw i) \<noteq> None"
      by simp
  next
    assume "\<forall>i \<le> 10. findUnique_link_shortCode d (draw i) \<noteq> None"
    then have "mintShortCode draw d 0 = Inl ''Failed to generate unique short code''"
      by (intro mint_exhausted) auto
    then show "\<exists>m. mintShortCode draw d 0 = Inl m" by blast
  qed
next
  assume a: "walletAddressSchema (gl_walletAddress b) \<and> gl_merchantId b \<noteq> []
        \<and> getMerchant env (gl_merchantId b) = Some merchant \<and> cashbackRates merchant \<noteq> []
        \<and> (case generateAffiliateLink env merchant
                   (generateSubId (toLowerCase (gl_walletAddress b)) (random env) (timestamp env)) of
               Inr u \<Rightarrow> Inr u
             | Inl e \<Rightarrow> generateTrackingLink env (m_id merchant)
                   (generateSubId (toLowerCase (gl_walletAddress b)) (random env) (timestamp env)))
            = Inr tracking_url
        \<and> (\<forall>i \<le> 10. findUnique_link_shortCode d (generateShortCode env i) \<noteq> None)"
  from a have v1: "walletAddressSchema (gl_walletAddress b)" by blast
  from a have v2: "gl_merchantId b \<noteq> []" by blast
  from a have m1: "getMerchant env (gl_merchantId b) = Some merchant" by blast
  from a have m2: "cashbackRates merchant \<noteq> []" by blast
  from a have t: "(case generateAffiliateLink env merchant
                   (generateSubId (toLowerCase (gl_walletAddress b)) (random env) (timestamp env)) of
               Inr u \<Rightarrow> Inr u
             | Inl e \<Rightarrow> generateTrackingLink env (m_id merchant)
                   (generateSubId (toLowerCase (gl_walletAddress b)) (random env) (timestamp env)))
            = Inr tracking_url" by blast
  from a have c: "\<forall>i \<le> 10. findUnique_link_shortCode d (generateShortCode env i) \<noteq> None"
    by blast
  from links_handler_exhausted [OF v1 v2 m1 m2 t c]
  show "links_handler env d b
            = (Json 400 (Failure ''Failed to generate unique short code''),
               snd (find_or_create_agent d (toLowerCase (gl_walletAddress b))))" .
qed


lemma example_exhausted:
  "walletAddressSchema (gl_walletAddress example_link_request)"
  "gl_merchantId example_link_request \<noteq> []"
  "getMerchant example_env (gl_merchantId example_link_request) = Some example_merchant"
  "cashbackRates example_merchant \<noteq> []"
  "(case generateAffiliateLink example_env example_merchant
           (generateSubId (toLowerCase (gl_walletAddress example_link_request))
              (random example_env) (timestamp example_env)) of
      Inr u \<Rightarrow> Inr u
    | Inl e \<Rightarrow> generateTrackingLink example_env (m_id example_merchant)
           (generateSubId (toLowerCase (gl_walletAddress example_link_request))
              (random example_env) (timestamp example_env)))
   = Inr (''https://invol.co/click?offer_id=c9&aff_sub=agent_aaaa0000_p0q1_lq9y'')"
  "\<forall>i \<le> 10. findUnique_link_shortCode example_db (generateShortCode example_env i) \<noteq> None"
  by (simp_all add: example_link_request_def example_env_def example_merchant_def example_db_def
        walletAddressSchema_def is_hex_def findUnique_link_shortCode_def generateSubId_def
        slice_def toLowerCase_def toLowerCase_char_def)

theorem C4_short_code_retries_witness:
  "findUnique_link_shortCode example_db ''abc2345'' \<noteq> None
   \<and> generateShortCode example_env 0 = ''abc2345''
   \<and> generateShortCode example_env 10 = ''abc2345''
   \<and> (\<exists>m. mintShortCode (generateShortCode example_env) example_db 0 = Inl m)
   \<and> fst (links_handler example_env example_db example_link_request)
       = Json 400 (Failure ''Failed to generate unique short code'')"
proof -
  have g: "findUnique_link_shortCode example_db ''abc2345'' \<noteq> None"
    "generateShortCode example_env 0 = ''abc2345''" "generateShortCode example_env 10 = ''abc2345''"
    by (simp_all add: example_env_def example_db_def findUnique_link_shortCode_def)
  from C4_short_code_retries [of "generateShortCode example_env" example_db "[]" 0
      example_link_request example_env example_merchant
      "''https://invol.co/click?offer_id=c9&aff_sub=agent_aaaa0000_p0q1_lq9y''"]
    example_exhausted g
  show ?thesis by simp
qed

text \<open>
  A request whose every draw collides is answered with status 400, not 500.
\<close>

theorem C4_status_400_counterexample:
  "fst (links_handler example_env example_db example_link_request)
     = Json 400 (Failure ''Failed to generate unique short code'')
   \<and> fst (links_handler example_env example_db example_link_request)
     \<noteq> Json 500 (Failure ''Failed to generate unique short code'')"
  using links_handler_exhausted [OF example_exhausted] by simp

subsection \<open>Redirect\<close>

lemma go_found:
  assumes "findUnique_link_shortCode d code = Some link"
  shows "fst (go_handler Fulfilled now d code) = Redirect 302 (trackingUrl link)"
    and "go_handler (Rejected message) now d code = (Json 500 (Failure message), d)"
  using assms by (simp_all add: go_handler_def)

text \<open>
  C3 (amended). For a short code in the store, the handler redirects with status 302 to the
  stored tracking URL when the click-statistics update completes; when the update rejects,
  it answers with status 500 and the error's message, and the store is unchanged.
\<close>

theorem C3_redirect:
  assumes "findUnique_link_shortCode d code = Some link"
  shows "fst (go_handler Fulfilled now d code) = Redirect 302 (trackingUrl link)
         \<and> go_handler (Rejected message) now d code = (Json 500 (Failure message), d)"
  using go_found [OF assms] by simp

theorem C3_redirect_witness:
  "findUnique_link_shortCode example_db ''abc2345'' = Some example_link
   \<and> fst (go_handler Fulfilled 5000 example_db ''abc2345'') = Redirect 302 ''https://track.example/t1''
   \<and> go_handler (Rejected ''connection lost'') 5000 example_db ''abc2345''
       = (Json 500 (Failure ''connection lost''), example_db)"
proof -
  have f: "findUnique_link_shortCode example_db ''abc2345'' = Some example_link"
    by (simp add: example_db_def example_link_def findUnique_link_shortCode_def)
  have t: "trackingUrl example_link = ''https://track.example/t1''"
    by (simp add: example_db_def example_link_def)
  from C3_redirect [OF f, of 5000 "''connection lost''"] f t show ?thesis by simp
qed

text \<open>
  The short code is in the store and the click-statistics update fails: the response is an
  error with status 500, not a redirect.
\<close>

theorem C3_telemetry_failure_counterexample:
  "findUnique_link_shortCode example_db ''abc2345'' \<noteq> None
   \<and> fst (go_handler (Rejected ''connection lost'') 5000 example_db ''abc2345'')
       = Json 500 (Failure ''connection lost'')"
  by (simp add: example_db_def go_handler_def findUnique_link_shortCode_def)

subsection \<open>Earnings\<close>

lemma add_reward_fields:
  "commissioned (add_reward js_add acc r)
     = (if status r = COMMISSIONED then js_add (commissioned acc) (Number (commissionUsdt r))
        else commissioned acc)"
  "paid (add_reward js_add acc r)
     = (if status r = PAID then js_add (paid acc) (Number (commissionUsdt r)) else paid acc)"
  by (cases "status r"; simp add: add_reward_def)+

lemma foldl_commissioned:
  "commissioned (foldl (add_reward js_add) acc rs)
     = foldl (\<lambda>c r. js_add c (Number (commissionUsdt r))) (commissioned acc)
         (filter (\<lambda>r. status r = COMMISSIONED) rs)"
  by (induction rs arbitrary: acc) (simp_all add: add_reward_fields)

lemma foldl_paid:
  "paid (foldl (add_reward js_add) acc rs)
     = foldl (\<lambda>c r. js_add c (Number (commissionUsdt r))) (paid acc)
         (filter (\<lambda>r. status r = PAID) rs)"
  by (induction rs arbitrary: acc) (simp_all add: add_reward_fields)

lemma earned_of_agent:
  "js_add (commissioned (foldl (add_reward js_add) zero_byStatus rs))
          (paid (foldl (add_reward js_add) zero_byStatus rs))
   = js_add (js_sum js_add (filter (\<lambda>r. status r = COMMISSIONED) rs))
            (js_sum js_add (filter (\<lambda>r. status r = PAID) rs))"
  by (simp add: foldl_commissioned foldl_paid zero_byStatus_def js_sum_def)

lemma filter_counting:
  "filter (\<lambda>r. status r = COMMISSIONED) (filter (\<lambda>r. status r = COMMISSIONED \<or> status r = PAID) rs)
     = filter (\<lambda>r. status r = COMMISSIONED) rs"
  "filter (\<lambda>r. status r = PAID) (filter (\<lambda>r. status r = COMMISSIONED \<or> status r = PAID) rs)
     = filter (\<lambda>r. status r = PAID) rs"
  by (induction rs) auto

lemma total_of_handler:
  assumes "walletAddressSchema w"
  shows "totalEarnedUsdt (earnings_handler js_add d w)
           = Some (case findUnique_agent d (toLowerCase w) of
                     None \<Rightarrow> Number 0
                   | Some a \<Rightarrow>
                       js_add (js_sum js_add (filter (\<lambda>r. status r = COMMISSIONED) (agent_rewards d a)))
                              (js_sum js_add (filter (\<lambda>r. status r = PAID) (agent_rewards d a))))"
  using assms
  by (simp add: earnings_handler_def Let_def earned_of_agent split: option.splits)

text \<open>
  C10. For a valid wallet address the \<open>totalEarnedUsdt\<close> of the earnings summary is the
  double sum of two subtotals, that of the agent's \<open>COMMISSIONED\<close> rewards and that of its
  \<open>PAID\<close> rewards, each the double sum of the commissions of those rewards, newest first,
  and it is \<open>0\<close> when the wallet has no agent. Rewards in any other status have no part in
  it: two stores with the same agents whose agents' \<open>COMMISSIONED\<close> and \<open>PAID\<close> rewards agree
  give the same total. This holds for every addition of doubles.
\<close>

theorem C10_total_earned:
  assumes "walletAddressSchema w"
  shows "totalEarnedUsdt (earnings_handler js_add d w)
           = Some (case findUnique_agent d (toLowerCase w) of
                     None \<Rightarrow> Number 0
                   | Some a \<Rightarrow>
                       js_add (js_sum js_add (filter (\<lambda>r. status r = COMMISSIONED) (agent_rewards d a)))
                              (js_sum js_add (filter (\<lambda>r. status r = PAID) (agent_rewards d a))))
         \<and> (agents d' = agents d
             \<and> (\<forall>a. filter (\<lambda>r. status r = COMMISSIONED \<or> status r = PAID) (agent_rewards d' a)
                    = filter (\<lambda>r. status r = COMMISSIONED \<or> status r = PAID) (agent_rewards d a))
            \<longrightarrow> totalEarnedUsdt (earnings_handler js_add d' w)
                  = totalEarnedUsdt (earnings_handler js_add d w))"
proof -
  have same: "totalEarnedUsdt (earnings_handler js_add d' w)
                = totalEarnedUsdt (earnings_handler js_add d w)"
    if ag: "agents d' = agents d"
      and eq: "\<forall>a. filter (\<lambda>r. status r = COMMISSIONED \<or> status r = PAID) (agent_rewards d' a)
                    = filter (\<lambda>r. status r = COMMISSIONED \<or> status r = PAID) (agent_rewards d a)"
  proof -
    have fa: "findUnique_agent d' (toLowerCase w) = findUnique_agent d (toLowerCase w)"
      using ag by (simp add: findUnique_agent_def)
    have c: "filter (\<lambda>r. status r = COMMISSIONED) (agent_rewards d' a)
               = filter (\<lambda>r. status r = COMMISSIONED) (agent_rewards d a)" for a
      using arg_cong [OF eq [rule_format, of a], of "filter (\<lambda>r. status r = COMMISSIONED)"]
      by (simp only: filter_counting)
    have p: "filter (\<lambda>r. status r = PAID) (agent_rewards d' a)
               = filter (\<lambda>r. status r = PAID) (agent_rewards d a)" for a
      using arg_cong [OF eq [rule_format, of a], of "filter (\<lambda>r. status r = PAID)"]
      by (simp only: filter_counting)
    show ?thesis
      by (simp add: total_of_handler [OF assms] fa c p cong: option.case_cong)
  qed
  from total_of_handler [OF assms, of js_add d] same show ?thesis by blast
qed

theorem C10_total_earned_witness:
  "walletAddressSchema ''0xAAAA000000000000000000000000000000000001''
   \<and> map (\<lambda>r. (status r, commissionUsdt r)) (rewards example_db2)
       = [(PAID, 10), (PENDING, 7), (COMMISSIONED, 5)]
   \<and> totalEarnedUsdt (earnings_handler exact_add example_db2 ''0xAAAA000000000000000000000000000000000001'')
       = Some (Number 15)"
proof -
  let ?w = "''0xAAAA000000000000000000000000000000000001''"
  have v: "walletAddressSchema ?w"
    by (simp add: walletAddressSchema_def is_hex_def)
  have r: "map (\<lambda>r. (status r, commissionUsdt r)) (rewards example_db2)
       = [(PAID, 10), (PENDING, 7), (COMMISSIONED, 5)]"
    by (simp add: example_db2_def example_ledger_def example_defs handler_defs Let_def)
  have a: "findUnique_agent example_db2 (toLowerCase ?w) = Some example_agent"
    by (simp add: example_db2_def example_ledger_def example_defs handler_defs Let_def
          findUnique_agent_def)
  have s: "js_add_total = Number 15"
    if "js_add_total = exact_add
          (js_sum exact_add (filter (\<lambda>r. status r = COMMISSIONED) (agent_rewards example_db2 example_agent)))
          (js_sum exact_add (filter (\<lambda>r. status r = PAID) (agent_rewards example_db2 example_agent)))"
    for js_add_total
    unfolding that
    by (simp add: example_db2_def example_ledger_def example_defs handler_defs Let_def
          agent_rewards_def js_sum_def)
  from C10_total_earned [OF v, of exact_add example_db2 example_db2] v r show ?thesis
    by (simp add: a s)
qed

end
